theory Spec2Isabelle
  imports Main "HOL-Library.Word"
begin

unbundle bit_operations_syntax

section \<open>Machine types\<close>

type_synonym u8 = "8 word"
type_synonym u16 = "16 word"
type_synonym u32 = "32 word"
type_synonym u64 = "64 word"

section \<open>base/byte_order.h\<close>

datatype BYTEORDER = LITTLE_ENDIAN | BIG_ENDIAN

text \<open>
  The header is compiled for one of two operating systems; the macros
  \<open>HOST_BYTEORDER\<close>, \<open>NETWORK_BYTEORDER\<close> and \<open>HOST_IS_LITTLE_ENDIAN\<close> depend on it.
  The order in which the machine lays out the bytes of an integer object in memory is a
  second, independent parameter of the build target.
\<close>

datatype os = OS_WIN | OS_LINUX

record target =
  target_os :: os
  memory_order :: BYTEORDER

definition HOST_IS_LITTLE_ENDIAN :: "target \<Rightarrow> bool" where
  "HOST_IS_LITTLE_ENDIAN t = (target_os t = OS_WIN)"

definition HOST_BYTEORDER :: "target \<Rightarrow> BYTEORDER" where
  "HOST_BYTEORDER t = (case target_os t of OS_WIN \<Rightarrow> LITTLE_ENDIAN | OS_LINUX \<Rightarrow> BIG_ENDIAN)"

definition NETWORK_BYTEORDER :: "target \<Rightarrow> BYTEORDER" where
  "NETWORK_BYTEORDER t = BIG_ENDIAN"

definition ReverseShort :: "u16 \<Rightarrow> u16" where
  "ReverseShort d = push_bit 8 (d AND 0x00ff) OR drop_bit 8 (d AND 0xff00)"

definition ReverseInt :: "u32 \<Rightarrow> u32" where
  "ReverseInt d =
     push_bit 24 (d AND 0x000000ff) OR push_bit 8 (d AND 0x0000ff00) OR
     drop_bit 8 (d AND 0x00ff0000) OR drop_bit 24 (d AND 0xff000000)"

text \<open>
  The 64-bit swap is defined in the source under the name \<open>ReverseLog\<close> and called
  under the name \<open>ReverseLong\<close>; both names denote this one function.
\<close>

definition ReverseLong :: "u64 \<Rightarrow> u64" where
  "ReverseLong d =
     drop_bit 56 (d AND 0xff00000000000000) OR
     drop_bit 40 (d AND 0x00ff000000000000) OR
     drop_bit 24 (d AND 0x0000ff0000000000) OR
     drop_bit 8  (d AND 0x000000ff00000000) OR
     push_bit 8  (d AND 0x00000000ff000000) OR
     push_bit 24 (d AND 0x0000000000ff0000) OR
     push_bit 40 (d AND 0x000000000000ff00) OR
     push_bit 56 (d AND 0x00000000000000ff)"

definition HtonUint16 :: "target \<Rightarrow> u16 \<Rightarrow> u16" where
  "HtonUint16 t d = (if HOST_IS_LITTLE_ENDIAN t then ReverseShort d else d)"

definition NtohUint16 :: "target \<Rightarrow> u16 \<Rightarrow> u16" where
  "NtohUint16 t d = (if HOST_IS_LITTLE_ENDIAN t then ReverseShort d else d)"

definition HtonUint32 :: "target \<Rightarrow> u32 \<Rightarrow> u32" where
  "HtonUint32 t d = (if HOST_IS_LITTLE_ENDIAN t then ReverseInt d else d)"

definition NtohUint32 :: "target \<Rightarrow> u32 \<Rightarrow> u32" where
  "NtohUint32 t d = (if HOST_IS_LITTLE_ENDIAN t then ReverseInt d else d)"

definition HtonUint64 :: "target \<Rightarrow> u64 \<Rightarrow> u64" where
  "HtonUint64 t d = (if HOST_IS_LITTLE_ENDIAN t then ReverseLong d else d)"

definition NtohUint64 :: "target \<Rightarrow> u64 \<Rightarrow> u64" where
  "NtohUint64 t d = (if HOST_IS_LITTLE_ENDIAN t then ReverseLong d else d)"

section \<open>Memory: byte arrays, integer objects, memcpy\<close>

text \<open>
  A byte array is the list of its bytes; its length is the extent of the allocation.
  \<open>new uint8_t[n]\<close> returns storage with indeterminate contents: the contents are
  taken from \<open>junk\<close>, a list the environment supplies.
\<close>

definition new_uint8_array :: "u8 list \<Rightarrow> nat \<Rightarrow> u8 list" where
  "new_uint8_array junk n = take n junk @ replicate (n - length junk) 0"

text \<open>The bytes of an integer object, lowest address first, and the value they hold.\<close>

fun le_bytes :: "nat \<Rightarrow> 'a::len word \<Rightarrow> u8 list" where
  "le_bytes 0 w = []"
| "le_bytes (Suc n) w = ucast w # le_bytes n (drop_bit 8 w)"

fun le_word :: "u8 list \<Rightarrow> 'a::len word" where
  "le_word [] = 0"
| "le_word (b # bs) = ucast b OR push_bit 8 (le_word bs)"

definition object_bytes :: "target \<Rightarrow> nat \<Rightarrow> 'a::len word \<Rightarrow> u8 list" where
  "object_bytes t n w =
     (case memory_order t of
        LITTLE_ENDIAN \<Rightarrow> le_bytes n w
      | BIG_ENDIAN \<Rightarrow> rev (le_bytes n w))"

definition object_value :: "target \<Rightarrow> u8 list \<Rightarrow> 'a::len word" where
  "object_value t bs =
     (case memory_order t of
        LITTLE_ENDIAN \<Rightarrow> le_word bs
      | BIG_ENDIAN \<Rightarrow> le_word (rev bs))"

section \<open>tools/byte\_stream.h\<close>

record ByteStream =
  data :: "u8 list option"
  read_idx :: u32
  write_idx :: u32
  stream_size :: u32
  mallocated :: bool
  byte_order :: BYTEORDER

text \<open>
  What a member function can do instead of returning: throw one of the exceptions of
  \<open>base/exception.h\<close> or a plain \<open>int\<close>, leaving the object in the state it had at
  the throw, or run \<open>memcpy\<close> outside the extent of an array, which is undefined
  behaviour.
\<close>

datatype exn =
    access_violation_exception string
  | null_ptr_exception
  | int_exception int

datatype error = Throw exn ByteStream | Undefined_Behaviour

text \<open>
  \<open>memcpy(&dst[doff], &src[soff], n)\<close>: the new contents of \<open>dst\<close>, when both ranges
  lie inside their arrays.
\<close>

definition memcpy :: "u8 list \<Rightarrow> nat \<Rightarrow> u8 list \<Rightarrow> nat \<Rightarrow> nat \<Rightarrow> u8 list option" where
  "memcpy dst doff src soff n =
     (if soff + n \<le> length src \<and> doff + n \<le> length dst
      then Some (take doff dst @ take n (drop soff src) @ drop (doff + n) dst)
      else None)"

definition ByteStream_sized :: "target \<Rightarrow> u8 list \<Rightarrow> u32 \<Rightarrow> ByteStream" where
  "ByteStream_sized t junk sz =
     (if sz > 0
      then \<lparr>data = Some (new_uint8_array junk (unat sz)), read_idx = 0, write_idx = 0,
            stream_size = sz, mallocated = True, byte_order = HOST_BYTEORDER t\<rparr>
      else \<lparr>data = None, read_idx = 0, write_idx = 0,
            stream_size = 0, mallocated = False, byte_order = HOST_BYTEORDER t\<rparr>)"

definition ByteStream_wrap :: "target \<Rightarrow> u8 list option \<Rightarrow> u32 \<Rightarrow> ByteStream" where
  "ByteStream_wrap t ext sz =
     \<lparr>data = ext, read_idx = 0, write_idx = sz,
      stream_size = sz, mallocated = False, byte_order = HOST_BYTEORDER t\<rparr>"

definition GetReadPtr :: "ByteStream \<Rightarrow> u32" where
  "GetReadPtr s = read_idx s"

definition GetWritePtr :: "ByteStream \<Rightarrow> u32" where
  "GetWritePtr s = write_idx s"

definition GetBufferSize :: "ByteStream \<Rightarrow> u32" where
  "GetBufferSize s = stream_size s"

definition GetBuffer :: "ByteStream \<Rightarrow> u8 list option" where
  "GetBuffer s = data s"

definition Eof :: "ByteStream \<Rightarrow> bool" where
  "Eof s = (GetReadPtr s = GetWritePtr s)"

definition SetByteOrder :: "ByteStream \<Rightarrow> BYTEORDER \<Rightarrow> ByteStream" where
  "SetByteOrder s order = s\<lparr>byte_order := order\<rparr>"

text \<open>\<open>_Reserve\<close>: the additions are 32-bit and wrap around.\<close>

definition Reserve :: "u8 list \<Rightarrow> ByteStream \<Rightarrow> u32 \<Rightarrow> error + ByteStream" where
  "Reserve junk s new_size =
     (if new_size \<le> stream_size s \<and> data s \<noteq> None \<and> mallocated s then Inr s
      else
        let n1 = (if new_size < stream_size s + 1024 then stream_size s + 1024 else new_size);
            n2 = (if n1 < stream_size s + (stream_size s div 16)
                  then stream_size s + (stream_size s div 16) else n1);
            fresh = new_uint8_array junk (unat n2)
        in case data s of
             None \<Rightarrow> Inr (s\<lparr>data := Some fresh, stream_size := n2, mallocated := True\<rparr>)
           | Some old \<Rightarrow>
               (case memcpy fresh 0 old 0 (unat (write_idx s)) of
                  None \<Rightarrow> Inl Undefined_Behaviour
                | Some d \<Rightarrow> Inr (s\<lparr>data := Some d, stream_size := n2, mallocated := True\<rparr>)))"

text \<open>\<open>Add(const void* data, uint32_t size)\<close>; a null \<open>data\<close> is \<open>None\<close>.\<close>

definition Add :: "u8 list \<Rightarrow> ByteStream \<Rightarrow> u8 list option \<Rightarrow> u32 \<Rightarrow> error + ByteStream" where
  "Add junk s src sz =
     (case src of
        None \<Rightarrow> Inr s
      | Some bytes \<Rightarrow>
          if sz = 0 then Inr s
          else
            (case Reserve junk s (write_idx s + sz) of
               Inl e \<Rightarrow> Inl e
             | Inr s1 \<Rightarrow>
                 (case data s1 of
                    None \<Rightarrow> Inl Undefined_Behaviour
                  | Some d \<Rightarrow>
                      (case memcpy d (unat (write_idx s1)) bytes 0 (unat sz) of
                         None \<Rightarrow> Inl Undefined_Behaviour
                       | Some d' \<Rightarrow>
                           Inr (s1\<lparr>data := Some d', write_idx := write_idx s1 + sz\<rparr>)))))"

text \<open>\<open>Get(void* data, uint32_t read_size)\<close> returns the bytes it copies out.\<close>

definition Get :: "ByteStream \<Rightarrow> u32 \<Rightarrow> error + (u8 list \<times> ByteStream)" where
  "Get s read_size =
     (case data s of
        None \<Rightarrow> Inl (Throw (access_violation_exception ''byte stream overflow'') s)
      | Some d \<Rightarrow>
          if read_size + read_idx s > write_idx s
          then Inl (Throw (access_violation_exception ''byte stream overflow'') s)
          else if unat (read_idx s) + unat read_size \<le> length d
          then Inr (take (unat read_size) (drop (unat (read_idx s)) d),
                    s\<lparr>read_idx := read_idx s + read_size\<rparr>)
          else Inl Undefined_Behaviour)"

text \<open>The source spells the write cursor \<open>wirte_idx_\<close> in this one function.\<close>

definition SetReadPtr :: "ByteStream \<Rightarrow> u32 \<Rightarrow> error + ByteStream" where
  "SetReadPtr s idx =
     (if idx > write_idx s then Inl (Throw (int_exception (- 1)) s)
      else Inr (s\<lparr>read_idx := idx\<rparr>))"

definition SetWritePtr :: "ByteStream \<Rightarrow> u32 \<Rightarrow> ByteStream" where
  "SetWritePtr s idx =
     s\<lparr>write_idx := (if idx > stream_size s then stream_size s else idx)\<rparr>"


text \<open>
  \<open>_WriteByteorder\<close> and \<open>_ReadByteorder\<close>, one overload for each integer type.
  A signed integer is the word of its two's-complement bits (\<open>sint\<close> reads it), so the
  \<open>static_cast\<close> between \<open>intN_t\<close> and \<open>uintN_t\<close> keeps the word.
\<close>

type_synonym i8 = "8 word"
type_synonym i16 = "16 word"
type_synonym i32 = "32 word"
type_synonym i64 = "64 word"

definition WriteByteorder_int16 :: "target \<Rightarrow> ByteStream \<Rightarrow> i16 \<Rightarrow> i16" where
  "WriteByteorder_int16 t s d = (if byte_order s = NETWORK_BYTEORDER t then HtonUint16 t d else d)"

definition WriteByteorder_uint16 :: "target \<Rightarrow> ByteStream \<Rightarrow> u16 \<Rightarrow> u16" where
  "WriteByteorder_uint16 t s d = (if byte_order s = NETWORK_BYTEORDER t then HtonUint16 t d else d)"

definition WriteByteorder_int32 :: "target \<Rightarrow> ByteStream \<Rightarrow> i32 \<Rightarrow> i32" where
  "WriteByteorder_int32 t s d = (if byte_order s = NETWORK_BYTEORDER t then HtonUint32 t d else d)"

definition WriteByteorder_uint32 :: "target \<Rightarrow> ByteStream \<Rightarrow> u32 \<Rightarrow> u32" where
  "WriteByteorder_uint32 t s d = (if byte_order s = NETWORK_BYTEORDER t then HtonUint32 t d else d)"

definition WriteByteorder_int64 :: "target \<Rightarrow> ByteStream \<Rightarrow> i64 \<Rightarrow> i64" where
  "WriteByteorder_int64 t s d = (if byte_order s = NETWORK_BYTEORDER t then HtonUint64 t d else d)"

definition WriteByteorder_uint64 :: "target \<Rightarrow> ByteStream \<Rightarrow> u64 \<Rightarrow> u64" where
  "WriteByteorder_uint64 t s d = (if byte_order s = NETWORK_BYTEORDER t then HtonUint64 t d else d)"

definition ReadByteorder_int16 :: "target \<Rightarrow> ByteStream \<Rightarrow> i16 \<Rightarrow> i16" where
  "ReadByteorder_int16 t s d = (if byte_order s = NETWORK_BYTEORDER t then NtohUint16 t d else d)"

definition ReadByteorder_uint16 :: "target \<Rightarrow> ByteStream \<Rightarrow> u16 \<Rightarrow> u16" where
  "ReadByteorder_uint16 t s d = (if byte_order s = NETWORK_BYTEORDER t then NtohUint16 t d else d)"

definition ReadByteorder_int32 :: "target \<Rightarrow> ByteStream \<Rightarrow> i32 \<Rightarrow> i32" where
  "ReadByteorder_int32 t s d = (if byte_order s = NETWORK_BYTEORDER t then NtohUint32 t d else d)"

definition ReadByteorder_uint32 :: "target \<Rightarrow> ByteStream \<Rightarrow> u32 \<Rightarrow> u32" where
  "ReadByteorder_uint32 t s d = (if byte_order s = NETWORK_BYTEORDER t then NtohUint32 t d else d)"

definition ReadByteorder_int64 :: "target \<Rightarrow> ByteStream \<Rightarrow> i64 \<Rightarrow> i64" where
  "ReadByteorder_int64 t s d = (if byte_order s = NETWORK_BYTEORDER t then NtohUint64 t d else d)"

definition ReadByteorder_uint64 :: "target \<Rightarrow> ByteStream \<Rightarrow> u64 \<Rightarrow> u64" where
  "ReadByteorder_uint64 t s d = (if byte_order s = NETWORK_BYTEORDER t then NtohUint64 t d else d)"

text \<open>\<open>operator <<\<close>: the (converted) integer object is appended byte by byte.\<close>

definition shl_int8 :: "target \<Rightarrow> u8 list \<Rightarrow> ByteStream \<Rightarrow> i8 \<Rightarrow> error + ByteStream" where
  "shl_int8 t junk s b = Add junk s (Some (object_bytes t 1 b)) 1"

definition shl_int16 :: "target \<Rightarrow> u8 list \<Rightarrow> ByteStream \<Rightarrow> i16 \<Rightarrow> error + ByteStream" where
  "shl_int16 t junk s b = Add junk s (Some (object_bytes t 2 (WriteByteorder_int16 t s b))) 2"

definition shl_int32 :: "target \<Rightarrow> u8 list \<Rightarrow> ByteStream \<Rightarrow> i32 \<Rightarrow> error + ByteStream" where
  "shl_int32 t junk s b = Add junk s (Some (object_bytes t 4 (WriteByteorder_int32 t s b))) 4"

definition shl_int64 :: "target \<Rightarrow> u8 list \<Rightarrow> ByteStream \<Rightarrow> i64 \<Rightarrow> error + ByteStream" where
  "shl_int64 t junk s b = Add junk s (Some (object_bytes t 8 (WriteByteorder_int64 t s b))) 8"

definition shl_uint8 :: "target \<Rightarrow> u8 list \<Rightarrow> ByteStream \<Rightarrow> u8 \<Rightarrow> error + ByteStream" where
  "shl_uint8 t junk s b = Add junk s (Some (object_bytes t 1 b)) 1"

definition shl_uint16 :: "target \<Rightarrow> u8 list \<Rightarrow> ByteStream \<Rightarrow> u16 \<Rightarrow> error + ByteStream" where
  "shl_uint16 t junk s b = Add junk s (Some (object_bytes t 2 (WriteByteorder_uint16 t s b))) 2"

definition shl_uint32 :: "target \<Rightarrow> u8 list \<Rightarrow> ByteStream \<Rightarrow> u32 \<Rightarrow> error + ByteStream" where
  "shl_uint32 t junk s b = Add junk s (Some (object_bytes t 4 (WriteByteorder_uint32 t s b))) 4"

definition shl_uint64 :: "target \<Rightarrow> u8 list \<Rightarrow> ByteStream \<Rightarrow> u64 \<Rightarrow> error + ByteStream" where
  "shl_uint64 t junk s b = Add junk s (Some (object_bytes t 8 (WriteByteorder_uint64 t s b))) 8"

text \<open>\<open>operator >>\<close>: the bytes are copied into the integer object, which is then converted.\<close>

definition shr_int8 :: "target \<Rightarrow> ByteStream \<Rightarrow> error + (i8 \<times> ByteStream)" where
  "shr_int8 t s =
     (case Get s 1 of Inl e \<Rightarrow> Inl e | Inr (bs, s') \<Rightarrow> Inr (object_value t bs, s'))"

definition shr_int16 :: "target \<Rightarrow> ByteStream \<Rightarrow> error + (i16 \<times> ByteStream)" where
  "shr_int16 t s =
     (case Get s 2 of Inl e \<Rightarrow> Inl e
      | Inr (bs, s') \<Rightarrow> Inr (ReadByteorder_int16 t s' (object_value t bs), s'))"

definition shr_int32 :: "target \<Rightarrow> ByteStream \<Rightarrow> error + (i32 \<times> ByteStream)" where
  "shr_int32 t s =
     (case Get s 4 of Inl e \<Rightarrow> Inl e
      | Inr (bs, s') \<Rightarrow> Inr (ReadByteorder_int32 t s' (object_value t bs), s'))"

definition shr_int64 :: "target \<Rightarrow> ByteStream \<Rightarrow> error + (i64 \<times> ByteStream)" where
  "shr_int64 t s =
     (case Get s 8 of Inl e \<Rightarrow> Inl e
      | Inr (bs, s') \<Rightarrow> Inr (ReadByteorder_int64 t s' (object_value t bs), s'))"

definition shr_uint8 :: "target \<Rightarrow> ByteStream \<Rightarrow> error + (u8 \<times> ByteStream)" where
  "shr_uint8 t s =
     (case Get s 1 of Inl e \<Rightarrow> Inl e | Inr (bs, s') \<Rightarrow> Inr (object_value t bs, s'))"

definition shr_uint16 :: "target \<Rightarrow> ByteStream \<Rightarrow> error + (u16 \<times> ByteStream)" where
  "shr_uint16 t s =
     (case Get s 2 of Inl e \<Rightarrow> Inl e
      | Inr (bs, s') \<Rightarrow> Inr (ReadByteorder_uint16 t s' (object_value t bs), s'))"

definition shr_uint32 :: "target \<Rightarrow> ByteStream \<Rightarrow> error + (u32 \<times> ByteStream)" where
  "shr_uint32 t s =
     (case Get s 4 of Inl e \<Rightarrow> Inl e
      | Inr (bs, s') \<Rightarrow> Inr (ReadByteorder_uint32 t s' (object_value t bs), s'))"

definition shr_uint64 :: "target \<Rightarrow> ByteStream \<Rightarrow> error + (u64 \<times> ByteStream)" where
  "shr_uint64 t s =
     (case Get s 8 of Inl e \<Rightarrow> Inl e
      | Inr (bs, s') \<Rightarrow> Inr (ReadByteorder_uint64 t s' (object_value t bs), s'))"

definition PutInt8 :: "target \<Rightarrow> u8 list \<Rightarrow> ByteStream \<Rightarrow> i8 \<Rightarrow> error + ByteStream" where
  "PutInt8 t junk s v = shl_int8 t junk s v"

definition PutUint8 :: "target \<Rightarrow> u8 list \<Rightarrow> ByteStream \<Rightarrow> u8 \<Rightarrow> error + ByteStream" where
  "PutUint8 t junk s v = shl_uint8 t junk s v"

definition PutInt16 :: "target \<Rightarrow> u8 list \<Rightarrow> ByteStream \<Rightarrow> i16 \<Rightarrow> error + ByteStream" where
  "PutInt16 t junk s v = shl_int16 t junk s v"

definition PutUint16 :: "target \<Rightarrow> u8 list \<Rightarrow> ByteStream \<Rightarrow> u16 \<Rightarrow> error + ByteStream" where
  "PutUint16 t junk s v = shl_uint16 t junk s v"

definition PutInt32 :: "target \<Rightarrow> u8 list \<Rightarrow> ByteStream \<Rightarrow> i32 \<Rightarrow> error + ByteStream" where
  "PutInt32 t junk s v = shl_int32 t junk s v"

definition PutUint32 :: "target \<Rightarrow> u8 list \<Rightarrow> ByteStream \<Rightarrow> u32 \<Rightarrow> error + ByteStream" where
  "PutUint32 t junk s v = shl_uint32 t junk s v"

definition PutInt64 :: "target \<Rightarrow> u8 list \<Rightarrow> ByteStream \<Rightarrow> i64 \<Rightarrow> error + ByteStream" where
  "PutInt64 t junk s v = shl_int64 t junk s v"

definition PutUint64 :: "target \<Rightarrow> u8 list \<Rightarrow> ByteStream \<Rightarrow> u64 \<Rightarrow> error + ByteStream" where
  "PutUint64 t junk s v = shl_uint64 t junk s v"

definition GetInt8 :: "target \<Rightarrow> ByteStream \<Rightarrow> error + (i8 \<times> ByteStream)" where
  "GetInt8 t s = shr_int8 t s"

definition GetUint8 :: "target \<Rightarrow> ByteStream \<Rightarrow> error + (u8 \<times> ByteStream)" where
  "GetUint8 t s = shr_uint8 t s"

definition GetInt16 :: "target \<Rightarrow> ByteStream \<Rightarrow> error + (i16 \<times> ByteStream)" where
  "GetInt16 t s = shr_int16 t s"

definition GetUint16 :: "target \<Rightarrow> ByteStream \<Rightarrow> error + (u16 \<times> ByteStream)" where
  "GetUint16 t s = shr_uint16 t s"

definition GetInt32 :: "target \<Rightarrow> ByteStream \<Rightarrow> error + (i32 \<times> ByteStream)" where
  "GetInt32 t s = shr_int32 t s"

definition GetUint32 :: "target \<Rightarrow> ByteStream \<Rightarrow> error + (u32 \<times> ByteStream)" where
  "GetUint32 t s = shr_uint32 t s"

definition GetInt64 :: "target \<Rightarrow> ByteStream \<Rightarrow> error + (i64 \<times> ByteStream)" where
  "GetInt64 t s = shr_int64 t s"

definition GetUint64 :: "target \<Rightarrow> ByteStream \<Rightarrow> error + (u64 \<times> ByteStream)" where
  "GetUint64 t s = shr_uint64 t s"

text \<open>
  The loop of \<open>GetString\<close>: \<open>s\<close> is the stream read from, \<open>bs\<close> the local stream the
  bytes are collected in.
\<close>

function GetString_loop ::
  "target \<Rightarrow> u8 list \<Rightarrow> ByteStream \<Rightarrow> ByteStream \<Rightarrow> error + (ByteStream \<times> ByteStream)" where
  "GetString_loop t junk s bs =
     (if Eof s then
        (case PutUint8 t junk bs 0 of Inl e \<Rightarrow> Inl e | Inr bs' \<Rightarrow> Inr (s, bs'))
      else
        (case GetUint8 t s of
           Inl e \<Rightarrow> Inl e
         | Inr (c, s') \<Rightarrow>
             (case PutUint8 t junk bs c of
                Inl e \<Rightarrow> Inl e
              | Inr bs' \<Rightarrow> if c = 0 then Inr (s', bs') else GetString_loop t junk s' bs')))"
  by pat_completeness auto
termination
proof (relation "measure (\<lambda>(t, junk, s, bs). unat (write_idx s - read_idx s))")
  show "wf (measure (\<lambda>(t, junk, s, bs). unat (write_idx s - read_idx s)))" by simp
next
  fix t :: target and junk :: "u8 list" and s bs :: ByteStream and x2 :: "u8 \<times> ByteStream"
    and c :: u8 and s' :: ByteStream and bs' :: ByteStream
  assume ne: "\<not> Eof s" and g: "GetUint8 t s = Inr x2" and x2: "(c, s') = x2"
  from g x2 have s': "s' = s\<lparr>read_idx := read_idx s + 1\<rparr>"
    by (auto simp: GetUint8_def shr_uint8_def Get_def split: option.splits if_splits sum.splits)
  from ne have "write_idx s - read_idx s \<noteq> 0"
    by (simp add: Eof_def GetReadPtr_def GetWritePtr_def)
  then have "unat (write_idx s - read_idx s - 1) = unat (write_idx s - read_idx s) - 1"
    and "0 < unat (write_idx s - read_idx s)"
    by (simp_all add: unat_minus_one unat_gt_0)
  then have "unat (write_idx s - read_idx s - 1) < unat (write_idx s - read_idx s)"
    by simp
  with s' show "((t, junk, s', bs'), (t, junk, s, bs)) \<in> measure (\<lambda>(t, junk, s, bs). unat (write_idx s - read_idx s))"
    by (simp add: diff_diff_eq)
qed

text \<open>
  \<open>string((char*)p)\<close>: the bytes before the first zero byte of the array \<open>p\<close> points
  to. A null \<open>p\<close> and an array without a zero byte are undefined behaviour.
\<close>

definition c_string :: "u8 list option \<Rightarrow> error + u8 list" where
  "c_string p =
     (case p of
        None \<Rightarrow> Inl Undefined_Behaviour
      | Some d \<Rightarrow> if 0 \<in> set d then Inr (takeWhile (\<lambda>c. c \<noteq> 0) d) else Inl Undefined_Behaviour)"

definition GetString :: "target \<Rightarrow> u8 list \<Rightarrow> ByteStream \<Rightarrow> error + (u8 list \<times> ByteStream)" where
  "GetString t junk s =
     (case GetString_loop t junk s (ByteStream_sized t junk 0) of
        Inl e \<Rightarrow> Inl e
      | Inr (s', bs) \<Rightarrow>
          (case c_string (GetBuffer bs) of Inl e \<Rightarrow> Inl e | Inr str \<Rightarrow> Inr (str, s')))"

text \<open>
  The representation invariant of a stream with a buffer: the extent of the buffer is
  \<open>stream_size_\<close> and the write cursor lies inside it.
\<close>

definition well_formed :: "ByteStream \<Rightarrow> bool" where
  "well_formed s =
     (case data s of
        None \<Rightarrow> True
      | Some d \<Rightarrow> length d = unat (stream_size s) \<and> write_idx s \<le> stream_size s)"

text \<open>The capacity \<open>_Reserve\<close> computes when it reallocates, in 32-bit arithmetic.\<close>

definition grown :: "u32 \<Rightarrow> u32 \<Rightarrow> u32" where
  "grown old n = max n (max (old + 1024) (old + old div 16))"

text \<open>A Windows build on a little-endian machine, for concrete runs.\<close>

definition win_le :: target where
  "win_le = \<lparr>target_os = OS_WIN, memory_order = LITTLE_ENDIAN\<rparr>"

text \<open>
  Writing \<open>v\<close> with \<open>put\<close>, moving the read cursor to the position the value was
  written at, and reading with \<open>get\<close>: every step returns, the value read is \<open>v\<close>
  and the read cursor ends at the write cursor.
\<close>

definition round_trip ::
  "(ByteStream \<Rightarrow> 'a \<Rightarrow> error + ByteStream) \<Rightarrow> (ByteStream \<Rightarrow> error + ('a \<times> ByteStream)) \<Rightarrow>
   ByteStream \<Rightarrow> 'a \<Rightarrow> bool" where
  "round_trip put get s v =
     (case put s v of
        Inl e \<Rightarrow> False
      | Inr s1 \<Rightarrow>
          (case SetReadPtr s1 (write_idx s) of
             Inl e \<Rightarrow> False
           | Inr s2 \<Rightarrow>
               (case get s2 of
                  Inl e \<Rightarrow> False
                | Inr (v', s3) \<Rightarrow> v' = v \<and> read_idx s3 = write_idx s1 \<and> write_idx s3 = write_idx s1)))"

text \<open>
  The bytes a stream holds between its cursors (the unread bytes) and below its write
  cursor (the written bytes).
\<close>

definition unread :: "ByteStream \<Rightarrow> u8 list" where
  "unread s =
     (case data s of
        None \<Rightarrow> []
      | Some d \<Rightarrow> take (unat (write_idx s) - unat (read_idx s)) (drop (unat (read_idx s)) d))"

definition written :: "ByteStream \<Rightarrow> u8 list" where
  "written s = (case data s of None \<Rightarrow> [] | Some d \<Rightarrow> take (unat (write_idx s)) d)"

text \<open>
  A stream is readable when its read cursor has not passed its write cursor and, if it
  has no buffer, nothing is left to read.
\<close>

definition readable :: "ByteStream \<Rightarrow> bool" where
  "readable s = (read_idx s \<le> write_idx s \<and> (data s = None \<longrightarrow> read_idx s = write_idx s))"

section \<open>event/event.h (the pthread implementation)\<close>

text \<open>
  The event is its flag \<open>event_state_\<close> and its mutex. \<open>mutex_locked\<close> records that a
  call returned without unlocking \<open>mutex_handle_\<close>; between calls of a correct run it
  is false.
\<close>

record Event =
  event_state :: bool
  mutex_locked :: bool

definition Event_new :: Event where
  "Event_new = \<lparr>event_state = False, mutex_locked = False\<rparr>"

text \<open>
  The answers of the operating system to one call. \<open>lock_rc\<close> is what
  \<open>pthread_mutex_lock\<close> or \<open>pthread_mutex_trylock\<close> returns on a free mutex,
  \<open>clock_rc\<close> what \<open>clock_gettime\<close> returns, and \<open>cond_rcs\<close> lists, for the
  successive calls of \<open>pthread_cond_wait\<close> or \<open>pthread_cond_timewait\<close>, the value
  returned together with the flag as the other threads left it while the mutex was
  released. A call that needs more answers than the list holds has not returned.
\<close>

record os_answers =
  lock_rc :: int
  clock_rc :: int
  cond_rcs :: "(int \<times> bool) list"

definition ETIMEDOUT :: int where
  "ETIMEDOUT = 110"

text \<open>
  \<open>Reset\<close> and \<open>Signal\<close> throw \<open>-1\<close> when the mutex cannot be locked; on a mutex
  left locked \<open>pthread_mutex_lock\<close> blocks and the call does not return (\<open>None\<close>).
\<close>

definition Event_Reset :: "Event \<Rightarrow> os_answers \<Rightarrow> (exn + Event) option" where
  "Event_Reset e env =
     (if mutex_locked e then None
      else if lock_rc env \<noteq> 0 then Some (Inl (int_exception (- 1)))
      else Some (Inr (e\<lparr>event_state := False\<rparr>)))"

definition Signal :: "Event \<Rightarrow> os_answers \<Rightarrow> (exn + Event) option" where
  "Signal e env =
     (if mutex_locked e then None
      else if lock_rc env \<noteq> 0 then Some (Inl (int_exception (- 1)))
      else Some (Inr (e\<lparr>event_state := True\<rparr>)))"

text \<open>
  The loop of the infinite wait, \<open>while (!event_state_)\<close>, and the loop of the timed
  wait, \<open>while (event_state_)\<close>: the value returned and the flag at the return.
\<close>

fun wait_forever :: "bool \<Rightarrow> (int \<times> bool) list \<Rightarrow> (bool \<times> bool) option" where
  "wait_forever st [] = (if \<not> st then None else Some (True, st))"
| "wait_forever st ((rc, st') # rest) =
     (if \<not> st then (if rc \<noteq> 0 then Some (False, st') else wait_forever st' rest)
      else Some (True, st))"

fun wait_timed :: "bool \<Rightarrow> (int \<times> bool) list \<Rightarrow> (bool \<times> bool) option" where
  "wait_timed st [] = (if st then None else Some (True, st))"
| "wait_timed st ((rc, st') # rest) =
     (if st then (if rc \<noteq> 0 then Some (False, st') else wait_timed st' rest)
      else Some (True, st))"

text \<open>\<open>Wait\<close> once the mutex is held. The deadline \<open>ts\<close> only reaches the operating system.\<close>

definition Wait_locked :: "Event \<Rightarrow> os_answers \<Rightarrow> u32 \<Rightarrow> (bool \<times> Event) option" where
  "Wait_locked e env timeout =
     (if timeout = 0xffffffff then
        (case wait_forever (event_state e) (cond_rcs env) of
           None \<Rightarrow> None
         | Some (r, st) \<Rightarrow> Some (r, e\<lparr>event_state := st, mutex_locked := False\<rparr>))
      else if clock_rc env = - 1 then Some (False, e\<lparr>mutex_locked := True\<rparr>)
      else
        (case wait_timed (event_state e) (cond_rcs env) of
           None \<Rightarrow> None
         | Some (r, st) \<Rightarrow> Some (r, e\<lparr>event_state := st, mutex_locked := False\<rparr>)))"

text \<open>
  \<open>Wait(timeout)\<close>; \<open>None\<close> when the call does not return. On a mutex left locked
  \<open>pthread_mutex_trylock\<close> fails and \<open>pthread_mutex_lock\<close> blocks.
\<close>

definition Wait :: "Event \<Rightarrow> os_answers \<Rightarrow> u32 \<Rightarrow> (bool \<times> Event) option" where
  "Wait e env timeout =
     (if timeout = 0 then
        (if mutex_locked e \<or> lock_rc env \<noteq> 0 then Some (False, e)
         else Wait_locked e env timeout)
      else if mutex_locked e then None
      else if lock_rc env \<noteq> 0 then Some (False, e)
      else Wait_locked e env timeout)"

section \<open>network/iocp\_base.h\<close>

text \<open>
  The library builds for 32-bit and for 64-bit Windows (\<open>lite_base.h\<close> tests
  \<open>_WIN32\<close> and \<open>_WIN64\<close> alike). The type variable \<open>'p\<close> stands for the build:
  \<open>LENGTH('p)\<close> is the width of a pointer, 32 or 64. \<open>SOCKET\<close>, \<open>ULONG_PTR\<close>,
  \<open>HANDLE\<close> and \<open>size_t\<close> are unsigned integers of that width; \<open>unsigned long\<close>,
  \<open>DWORD\<close> and \<open>ULONG\<close> have 32 bits on both builds, and an \<open>int\<close> is the word of
  its 32 two's-complement bits.
\<close>

type_synonym 'p SOCKET = "'p word"

type_synonym 'p ULONG_PTR = "'p word"

definition INVALID_SOCKET :: "'p::len SOCKET" where
  "INVALID_SOCKET = - 1"

definition MAX_IO_BUFFER_SIZE :: nat where
  "MAX_IO_BUFFER_SIZE = 4096"

definition MEM_POOL_SIZE :: u32 where
  "MEM_POOL_SIZE = 1000"

definition sizeof_SOCKADDR_IN :: "32 word" where
  "sizeof_SOCKADDR_IN = 16"

datatype IO_OPERATION = ACCEPT_POSTED | RECV_POSTED | SEND_POSTED | NULL_POSTED

record (overloaded) 'p OVERLAPPED =
  Internal :: "'p ULONG_PTR"
  InternalHigh :: "'p ULONG_PTR"
  Offset :: u32
  OffsetHigh :: u32
  hEvent :: "'p word"

record SOCKADDR_IN =
  sin_family :: u16
  sin_port :: u16
  sin_addr :: u32
  sin_zero :: u64

definition zero_OVERLAPPED :: "'p::len OVERLAPPED" where
  "zero_OVERLAPPED = \<lparr>Internal = 0, InternalHigh = 0, Offset = 0, OffsetHigh = 0, hEvent = 0\<rparr>"

definition zero_SOCKADDR_IN :: SOCKADDR_IN where
  "zero_SOCKADDR_IN = \<lparr>sin_family = 0, sin_port = 0, sin_addr = 0, sin_zero = 0\<rparr>"

text \<open>
  The pointer of a \<open>WSABUF\<close>: the code only ever stores the address of the inline
  array \<open>buf_\<close> of the context the descriptor belongs to.
\<close>

datatype char_ptr = Null_ptr | Inline_buf

record WSABUF =
  wsabuf_len :: u32
  wsabuf_buf :: char_ptr

record (overloaded) 'p IOCP_IoContext =
  overlapped :: "'p OVERLAPPED"
  sock_accept :: "'p SOCKET"
  wsa_buf :: WSABUF
  buf :: "u8 list"
  trans_len :: "32 word"
  operation :: IO_OPERATION
  remote_addr :: SOCKADDR_IN
  addr_size :: "32 word"

text \<open>
  The constructor assigns every member but \<open>sock_accept_\<close>, which keeps the
  indeterminate value \<open>junk_sock\<close> of the fresh storage.
\<close>

definition IOCP_IoContext_new :: "'p::len SOCKET \<Rightarrow> 'p::len IOCP_IoContext" where
  "IOCP_IoContext_new junk_sock =
     \<lparr>overlapped = zero_OVERLAPPED, sock_accept = junk_sock,
      wsa_buf = \<lparr>wsabuf_len = of_nat MAX_IO_BUFFER_SIZE, wsabuf_buf = Inline_buf\<rparr>,
      buf = replicate MAX_IO_BUFFER_SIZE 0, trans_len = 0, operation = NULL_POSTED,
      remote_addr = zero_SOCKADDR_IN, addr_size = sizeof_SOCKADDR_IN\<rparr>"

text \<open>
  What the code does to the world outside its own memory: the socket calls it makes and
  the user callbacks it invokes, in the order they happen; \<open>'s\<close> is the type
  \<open>SOCKET\<close> of the build.
\<close>

datatype 's event =
    Call_closesocket 's
  | Call_shutdown 's
  | Call_send 's
  | Call_WSARecv 's
  | Call_WSARecvFrom 's
  | Call_WSASend 's
  | Call_WSASendTo 's
  | Call_AcceptEx 's 's
  | ConnectedCallback u32
  | ReceivedCallback u32 "u8 list" "32 word"
  | ReceiveFromCallback u32 "u8 list" "32 word" SOCKADDR_IN
  | DisconnectedCallback u32

text \<open>\<open>IOCP_IoContext::Reset\<close> and \<open>ResetBuffer\<close>, with the calls they make.\<close>

definition IoContext_Reset :: "'p::len IOCP_IoContext \<Rightarrow> 'p::len IOCP_IoContext \<times> 'p::len SOCKET event list" where
  "IoContext_Reset c =
     (let (c1, calls) =
            (if INVALID_SOCKET = sock_accept c
             then (c\<lparr>sock_accept := INVALID_SOCKET\<rparr>, [Call_closesocket (sock_accept c)])
             else (c, []))
      in (c1\<lparr>overlapped := zero_OVERLAPPED,
              buf := replicate MAX_IO_BUFFER_SIZE 0,
              remote_addr := zero_SOCKADDR_IN,
              wsa_buf := \<lparr>wsabuf_len = of_nat MAX_IO_BUFFER_SIZE, wsabuf_buf = Inline_buf\<rparr>,
              operation := NULL_POSTED,
              addr_size := sizeof_SOCKADDR_IN,
              trans_len := 0\<rparr>, calls))"

definition IoContext_ResetBuffer :: "'p::len IOCP_IoContext \<Rightarrow> 'p::len IOCP_IoContext" where
  "IoContext_ResetBuffer c =
     c\<lparr>overlapped := zero_OVERLAPPED,
       buf := replicate MAX_IO_BUFFER_SIZE 0,
       wsa_buf := \<lparr>wsabuf_len = of_nat MAX_IO_BUFFER_SIZE, wsabuf_buf = Inline_buf\<rparr>,
       addr_size := sizeof_SOCKADDR_IN,
       trans_len := 0\<rparr>"

text \<open>
  Objects on the heap have addresses. An \<open>IOCP_IoContext*\<close> points either to a context
  allocated with \<open>new\<close> or to the member \<open>recv_context_\<close> of a socket context.
\<close>

type_synonym addr = nat

datatype io_ptr = Heap_io addr | Recv_io addr

record (overloaded) 'p IOCP_SocketContext =
  sock :: "'p SOCKET"
  list_io_context :: "io_ptr list"
  recv_context :: "'p IOCP_IoContext"
  local_addr :: SOCKADDR_IN
  sock_id :: u32
  is_listen_sock :: bool

text \<open>
  The memory and the pools of one server, client or UDP node: the contexts and socket
  contexts allocated so far, the free list and capacity of the \<open>IOCP_IoContextPool\<close>,
  the idle list, capacity and active map of the \<open>IOCP_SocketContextPool\<close>, the flag
  \<open>is_start_\<close>, and the calls and callbacks made so far. The destruction of a socket
  context whose last \<open>shared_ptr\<close> goes away is not part of the model.
\<close>

record (overloaded) 'p iocp =
  io_heap :: "addr \<rightharpoonup> 'p IOCP_IoContext"
  sock_heap :: "addr \<rightharpoonup> 'p IOCP_SocketContext"
  next_addr :: addr
  pool_list :: "io_ptr list"
  pool_size :: u32
  list_idle :: "addr list"
  idle_size :: u32
  map_active :: "u32 \<rightharpoonup> addr"
  is_start :: bool
  trace :: "'p SOCKET event list"

text \<open>Undefined behaviour, by its cause.\<close>

datatype fault =
    Null_dereference
  | Dangling_pointer
  | Delete_of_member
  | Buffer_overrun nat
  | Source_overrun
  | Key_store_overrun

definition bindf :: "fault + 'a \<Rightarrow> ('a \<Rightarrow> fault + 'b) \<Rightarrow> fault + 'b" where
  "bindf m f = (case m of Inl e \<Rightarrow> Inl e | Inr x \<Rightarrow> f x)"

text \<open>The state after \<open>Init\<close>: both pools empty, nothing allocated.\<close>

definition iocp_Init :: "u32 \<Rightarrow> 'p::len iocp" where
  "iocp_Init n =
     \<lparr>io_heap = Map.empty, sock_heap = Map.empty, next_addr = 0,
      pool_list = [], pool_size = n,
      list_idle = [], idle_size = 2 * n, map_active = Map.empty,
      is_start = False, trace = []\<rparr>"

text \<open>Reading and writing through an \<open>IOCP_IoContext*\<close>.\<close>

definition io_read :: "'p::len iocp \<Rightarrow> io_ptr \<Rightarrow> fault + 'p::len IOCP_IoContext" where
  "io_read st p =
     (case p of
        Heap_io a \<Rightarrow> (case io_heap st a of None \<Rightarrow> Inl Dangling_pointer | Some c \<Rightarrow> Inr c)
      | Recv_io a \<Rightarrow>
          (case sock_heap st a of None \<Rightarrow> Inl Dangling_pointer | Some s \<Rightarrow> Inr (recv_context s)))"

definition io_write :: "'p::len iocp \<Rightarrow> io_ptr \<Rightarrow> 'p::len IOCP_IoContext \<Rightarrow> 'p::len iocp" where
  "io_write st p c =
     (case p of
        Heap_io a \<Rightarrow> st\<lparr>io_heap := (io_heap st)(a \<mapsto> c)\<rparr>
      | Recv_io a \<Rightarrow>
          (case sock_heap st a of
             None \<Rightarrow> st
           | Some s \<Rightarrow> st\<lparr>sock_heap := (sock_heap st)(a \<mapsto> s\<lparr>recv_context := c\<rparr>)\<rparr>))"

definition emit :: "'p::len iocp \<Rightarrow> 'p::len SOCKET event list \<Rightarrow> 'p::len iocp" where
  "emit st evs = st\<lparr>trace := trace st @ evs\<rparr>"

subsection \<open>IOCP\_IoContextPool\<close>

text \<open>\<open>GetIoContext\<close>: pop the front of the free list, or allocate when it is empty.\<close>

definition GetIoContext :: "'p::len SOCKET \<Rightarrow> 'p::len iocp \<Rightarrow> io_ptr \<times> 'p::len iocp" where
  "GetIoContext junk_sock st =
     (case pool_list st of
        [] \<Rightarrow>
          (Heap_io (next_addr st),
           st\<lparr>io_heap := (io_heap st)(next_addr st \<mapsto> IOCP_IoContext_new junk_sock),
              next_addr := Suc (next_addr st)\<rparr>)
      | p # rest \<Rightarrow> (p, st\<lparr>pool_list := rest\<rparr>))"

text \<open>
  \<open>PutIoContext\<close>: reset the context, then delete it when the free list has reached
  the capacity and append it otherwise.
\<close>

definition PutIoContext :: "'p::len iocp \<Rightarrow> io_ptr \<Rightarrow> fault + 'p::len iocp" where
  "PutIoContext st p =
     bindf (io_read st p) (\<lambda>c.
       let (c', calls) = IoContext_Reset c;
           st1 = emit (io_write st p c') calls
       in if unat (pool_size st1) \<le> length (pool_list st1) then
            (case p of
               Heap_io a \<Rightarrow> Inr (st1\<lparr>io_heap := (io_heap st1)(a := None)\<rparr>)
             | Recv_io a \<Rightarrow> Inl Delete_of_member)
          else Inr (st1\<lparr>pool_list := pool_list st1 @ [p]\<rparr>))"

fun PutIoContext_all :: "'p::len iocp \<Rightarrow> io_ptr list \<Rightarrow> fault + 'p::len iocp" where
  "PutIoContext_all st [] = Inr st"
| "PutIoContext_all st (p # ps) = bindf (PutIoContext st p) (\<lambda>st'. PutIoContext_all st' ps)"

subsection \<open>IOCP\_SocketContext\<close>

definition IOCP_SocketContext_new :: "'p::len SOCKET \<Rightarrow> SOCKADDR_IN \<Rightarrow> 'p::len IOCP_SocketContext" where
  "IOCP_SocketContext_new junk_sock junk_addr =
     \<lparr>sock = INVALID_SOCKET, list_io_context = [],
      recv_context = IOCP_IoContext_new junk_sock, local_addr = junk_addr,
      sock_id = 0, is_listen_sock = False\<rparr>"

text \<open>\<open>IOCP_SocketContext::Reset\<close> of the socket context at address \<open>a\<close>.\<close>

definition SocketContext_Reset :: "'p::len iocp \<Rightarrow> addr \<Rightarrow> fault + 'p::len iocp" where
  "SocketContext_Reset st a =
     (case sock_heap st a of
        None \<Rightarrow> Inl Dangling_pointer
      | Some s \<Rightarrow>
          let calls = (if INVALID_SOCKET \<noteq> sock s
                       then [Call_shutdown (sock s), Call_closesocket (sock s)] else []);
              (r, rcalls) = IoContext_Reset (recv_context s);
              s1 = s\<lparr>sock_id := 0, is_listen_sock := False, sock := INVALID_SOCKET,
                     local_addr := zero_SOCKADDR_IN, recv_context := r\<rparr>;
              st1 = emit (st\<lparr>sock_heap := (sock_heap st)(a \<mapsto> s1)\<rparr>) (calls @ rcalls)
          in bindf (PutIoContext_all st1 (list_io_context s1)) (\<lambda>st2.
               case sock_heap st2 a of
                 None \<Rightarrow> Inl Dangling_pointer
               | Some s2 \<Rightarrow> Inr (st2\<lparr>sock_heap := (sock_heap st2)(a \<mapsto> s2\<lparr>list_io_context := []\<rparr>)\<rparr>)))"

definition AddContext :: "'p::len iocp \<Rightarrow> addr \<Rightarrow> io_ptr \<Rightarrow> fault + 'p::len iocp" where
  "AddContext st a p =
     (case sock_heap st a of
        None \<Rightarrow> Inl Dangling_pointer
      | Some s \<Rightarrow>
          Inr (st\<lparr>sock_heap := (sock_heap st)(a \<mapsto> s\<lparr>list_io_context := list_io_context s @ [p]\<rparr>)\<rparr>))"

text \<open>\<open>RemoveContext\<close> erases the first occurrence of the pointer and returns the context to the pool.\<close>

definition RemoveContext :: "'p::len iocp \<Rightarrow> addr \<Rightarrow> io_ptr \<Rightarrow> fault + 'p::len iocp" where
  "RemoveContext st a p =
     (case sock_heap st a of
        None \<Rightarrow> Inl Dangling_pointer
      | Some s \<Rightarrow>
          PutIoContext
            (st\<lparr>sock_heap := (sock_heap st)(a \<mapsto> s\<lparr>list_io_context := remove1 p (list_io_context s)\<rparr>)\<rparr>) p)"

subsection \<open>IOCP\_SocketContextPool\<close>

definition GetSocketContext :: "'p::len SOCKET \<Rightarrow> SOCKADDR_IN \<Rightarrow> 'p::len iocp \<Rightarrow> addr \<times> 'p::len iocp" where
  "GetSocketContext junk_sock junk_addr st =
     (case list_idle st of
        [] \<Rightarrow>
          (next_addr st,
           st\<lparr>sock_heap := (sock_heap st)(next_addr st \<mapsto> IOCP_SocketContext_new junk_sock junk_addr),
              next_addr := Suc (next_addr st)\<rparr>)
      | a # rest \<Rightarrow> (a, st\<lparr>list_idle := rest\<rparr>))"

definition PutSocketContext :: "'p::len iocp \<Rightarrow> addr \<Rightarrow> 'p::len iocp" where
  "PutSocketContext st a =
     (if length (list_idle st) < unat (idle_size st) then st\<lparr>list_idle := list_idle st @ [a]\<rparr>
      else st)"

definition AddActiveContext :: "'p::len iocp \<Rightarrow> addr \<Rightarrow> fault + 'p::len iocp" where
  "AddActiveContext st a =
     (case sock_heap st a of
        None \<Rightarrow> Inl Dangling_pointer
      | Some s \<Rightarrow> Inr (st\<lparr>map_active := (map_active st)(sock_id s \<mapsto> a)\<rparr>))"

definition GetActiveContext :: "'p::len iocp \<Rightarrow> u32 \<Rightarrow> addr option" where
  "GetActiveContext st key = map_active st key"

definition DelActiveContext :: "'p::len iocp \<Rightarrow> u32 \<Rightarrow> fault + 'p::len iocp" where
  "DelActiveContext st key =
     (case map_active st key of
        None \<Rightarrow> Inr st
      | Some a \<Rightarrow>
          bindf (SocketContext_Reset (st\<lparr>map_active := (map_active st)(key := None)\<rparr>) a) (\<lambda>st1.
            Inr (if length (list_idle st1) < unat (idle_size st1)
                 then st1\<lparr>list_idle := list_idle st1 @ [a]\<rparr> else st1)))"

section \<open>network/iocp\_tcpworkthread.h\<close>

text \<open>
  What \<open>GetQueuedCompletionStatus\<close> hands to the loop: a completion packet of a
  successful operation (bytes, key, the context of the \<open>OVERLAPPED\<close>, if any), the
  packet of a failed operation with the error code, or no packet at all (the timeout
  among others), where only \<open>overlapped\<close> is written; \<open>'k\<close> is the type
  \<open>ULONG_PTR\<close> of the key on the build. The bytes the system stores in the buffer of a
  context while an operation is in flight are not part of the model.
\<close>

datatype 'k dequeued =
    Completed u32 'k "io_ptr option"
  | Failed_io u32 'k io_ptr u32
  | No_packet u32

definition WAIT_TIMEOUT :: u32 where
  "WAIT_TIMEOUT = 258"

definition ERROR_NETNAME_DELETED :: u32 where
  "ERROR_NETNAME_DELETED = 64"

text \<open>The variables of \<open>_Run\<close> that live across iterations.\<close>

record run_locals =
  bytes_transfered :: u32
  run_sock_id :: u32

definition run_locals_init :: run_locals where
  "run_locals_init = \<lparr>bytes_transfered = 0, run_sock_id = 0\<rparr>"

text \<open>
  The call is \<open>GetQueuedCompletionStatus(iocp_handle_, &bytes_transfered,
  (PULONG_PTR)&sock_id, &overlapped, 500)\<close> with \<open>unsigned long sock_id\<close>: for every
  packet it dequeues, the system stores the key, a \<open>ULONG_PTR\<close>, through the cast
  pointer into a variable of 32 bits. Where a pointer has 32 bits the variable receives
  the key. Where it is wider the store runs past the variable, which is undefined
  behaviour. Without a packet neither the byte count nor the key is stored.
\<close>

definition store_key :: "'p::len ULONG_PTR \<Rightarrow> fault + u32" where
  "store_key key = (if 32 < LENGTH('p) then Inl Key_store_overrun else Inr (ucast key))"

definition after_dequeue :: "'p::len ULONG_PTR dequeued \<Rightarrow> run_locals \<Rightarrow> fault + run_locals" where
  "after_dequeue d l =
     (case d of
        Completed n key p \<Rightarrow>
          bindf (store_key key) (\<lambda>k. Inr \<lparr>bytes_transfered = n, run_sock_id = k\<rparr>)
      | Failed_io n key p err \<Rightarrow>
          bindf (store_key key) (\<lambda>k. Inr \<lparr>bytes_transfered = n, run_sock_id = k\<rparr>)
      | No_packet err \<Rightarrow> Inr l)"

text \<open>
  The answers of the operating system to the calls of one iteration or one call of the
  public interface, and the function pointers a worker was given
  (\<open>ReceivedCallback_\<close> and \<open>DisconnectedCallback_\<close> are the non-null pointers
  \<open>Init\<close> asks for).
\<close>

record (overloaded) 'p sys_answers =
  send_rc :: int
  WSARecv_posted :: bool
  WSASend_posted :: bool
  AcceptEx_posted :: bool
  WSASocket_result :: "'p SOCKET"
  associated :: bool
  accepted_remote_addr :: SOCKADDR_IN
  junk_sock :: "'p SOCKET"
  junk_addr :: SOCKADDR_IN

record worker =
  AcceptEx_set :: bool
  GetAcceptExSockAddrs_set :: bool
  ConnectedCallback_set :: bool

datatype control = Continue | Break

text \<open>
  Dereferencing an \<open>IOCP_SocketContextPtr\<close>, which is null or holds an address: the
  address and the object there.
\<close>

definition sock_read :: "'p::len iocp \<Rightarrow> addr option \<Rightarrow> fault + (addr \<times> 'p::len IOCP_SocketContext)" where
  "sock_read st sp =
     (case sp of
        None \<Rightarrow> Inl Null_dereference
      | Some a \<Rightarrow>
          (case sock_heap st a of None \<Rightarrow> Inl Dangling_pointer | Some s \<Rightarrow> Inr (a, s)))"

definition sock_write :: "'p::len iocp \<Rightarrow> addr \<Rightarrow> 'p::len IOCP_SocketContext \<Rightarrow> 'p::len iocp" where
  "sock_write st a s = st\<lparr>sock_heap := (sock_heap st)(a \<mapsto> s)\<rparr>"

text \<open>
  The disconnect sequence that occurs four times in this file: remove the key from the
  active map, then invoke the disconnect callback.
\<close>

definition disconnect :: "'p::len iocp \<Rightarrow> u32 \<Rightarrow> fault + 'p::len iocp" where
  "disconnect st key =
     bindf (DelActiveContext st key) (\<lambda>st1. Inr (emit st1 [DisconnectedCallback key]))"

text \<open>
  \<open>PostRecv\<close>. When the post fails, the key passed to \<open>DelActiveContext\<close> and the key
  passed to the callback are both read from the socket context, the second after the
  reset.
\<close>

definition TCP_PostRecv :: "'p::len sys_answers \<Rightarrow> 'p::len iocp \<Rightarrow> addr option \<Rightarrow> fault + (bool \<times> 'p::len iocp)" where
  "TCP_PostRecv env st sp =
     bindf (sock_read st sp) (\<lambda>(a, s).
       let s1 = s\<lparr>recv_context := (IoContext_ResetBuffer (recv_context s))\<lparr>operation := RECV_POSTED\<rparr>\<rparr>;
           st1 = emit (sock_write st a s1) [Call_WSARecv (sock s1)]
       in if \<not> WSARecv_posted env then
            bindf (DelActiveContext st1 (sock_id s1)) (\<lambda>st2.
              bindf (sock_read st2 sp) (\<lambda>(a2, s2).
                Inr (False, emit st2 [DisconnectedCallback (sock_id s2)])))
          else Inr (True, st1))"

definition TCP_PostSend ::
  "'p::len sys_answers \<Rightarrow> 'p::len iocp \<Rightarrow> addr option \<Rightarrow> io_ptr \<Rightarrow> fault + (bool \<times> 'p::len iocp)" where
  "TCP_PostSend env st sp p =
     bindf (io_read st p) (\<lambda>c.
       let st0 = io_write st p (c\<lparr>operation := SEND_POSTED\<rparr>) in
       bindf (sock_read st0 sp) (\<lambda>(a, s).
         let st1 = emit st0 [Call_WSASend (sock s)]
         in if \<not> WSASend_posted env then
              bindf (DelActiveContext st1 (sock_id s)) (\<lambda>st2.
                bindf (sock_read st2 sp) (\<lambda>(a2, s2).
                  Inr (False, emit st2 [DisconnectedCallback (sock_id s2)])))
            else Inr (True, st1)))"

text \<open>
  \<open>PostAccept\<close>. The \<open>assert\<close> on the listening socket is a check of debug builds
  and not part of the model.
\<close>

definition TCP_PostAccept ::
  "worker \<Rightarrow> 'p::len sys_answers \<Rightarrow> 'p::len iocp \<Rightarrow> addr option \<Rightarrow> io_ptr \<Rightarrow> fault + (bool \<times> 'p::len iocp)" where
  "TCP_PostAccept w env st sp p =
     bindf (io_read st p) (\<lambda>c.
       let st1 = io_write st p (c\<lparr>operation := ACCEPT_POSTED, sock_accept := WSASocket_result env\<rparr>)
       in if INVALID_SOCKET = WSASocket_result env then Inr (False, st1)
          else if \<not> AcceptEx_set w then Inl Null_dereference
          else
            bindf (sock_read st1 sp) (\<lambda>(a, s).
              Inr (AcceptEx_posted env, emit st1 [Call_AcceptEx (sock s) (WSASocket_result env)])))"

definition TCP_DoRecv :: "'p::len sys_answers \<Rightarrow> 'p::len iocp \<Rightarrow> addr option \<Rightarrow> fault + (bool \<times> 'p::len iocp)" where
  "TCP_DoRecv env st sp =
     bindf (sock_read st sp) (\<lambda>(a, s).
       TCP_PostRecv env
         (emit st [ReceivedCallback (sock_id s) (buf (recv_context s)) (trans_len (recv_context s))])
         sp)"

definition TCP_DoSend :: "'p::len iocp \<Rightarrow> addr option \<Rightarrow> io_ptr \<Rightarrow> fault + 'p::len iocp" where
  "TCP_DoSend st sp p =
     (case sp of None \<Rightarrow> Inl Null_dereference | Some a \<Rightarrow> RemoveContext st a p)"

definition TCP_DoAccept ::
  "worker \<Rightarrow> 'p::len sys_answers \<Rightarrow> 'p::len iocp \<Rightarrow> addr option \<Rightarrow> io_ptr \<Rightarrow> fault + (bool \<times> 'p::len iocp)" where
  "TCP_DoAccept w env st sp p =
     (if \<not> GetAcceptExSockAddrs_set w then Inl Null_dereference
      else
        bindf (io_read st p) (\<lambda>c.
          let (na, st1) = GetSocketContext (junk_sock env) (junk_addr env) st in
          bindf (sock_read st1 (Some na)) (\<lambda>(a, ns).
            let ns1 = ns\<lparr>sock := sock_accept c, sock_id := ucast (sock_accept c),
                         local_addr := accepted_remote_addr env\<rparr>
            in bindf (AddActiveContext (sock_write st1 na ns1) na) (\<lambda>st2.
                 if \<not> associated env then
                   bindf (DelActiveContext st2 (sock_id ns1)) (\<lambda>st3. Inr (False, st3))
                 else if \<not> ConnectedCallback_set w then Inl Null_dereference
                 else
                   bindf (TCP_PostRecv env (emit st2 [ConnectedCallback (sock_id ns1)]) (Some na))
                     (\<lambda>(posted, st3).
                        if \<not> posted then
                          bindf (sock_read st3 (Some na)) (\<lambda>(a3, ns3).
                            bindf (DelActiveContext st3 (sock_id ns3)) (\<lambda>st4.
                              bindf (sock_read st4 (Some na)) (\<lambda>(a4, ns4).
                                Inr (False, emit st4 [DisconnectedCallback (sock_id ns4)]))))
                        else
                          bindf (io_read st3 p) (\<lambda>c3.
                            TCP_PostAccept w env (io_write st3 p (IoContext_ResetBuffer c3)) sp p))))))"

definition TCP_HandleError ::
  "'p::len sys_answers \<Rightarrow> 'p::len iocp \<Rightarrow> addr option \<Rightarrow> u32 \<Rightarrow> fault + (bool \<times> 'p::len iocp)" where
  "TCP_HandleError env st sp err =
     (case sp of
        None \<Rightarrow> Inr (True, st)
      | Some a \<Rightarrow>
          bindf (sock_read st sp) (\<lambda>(a, s).
            if \<not> is_listen_sock s \<and> WAIT_TIMEOUT = err then
              let st1 = emit st [Call_send (sock s)]
              in if send_rc env = - 1
                 then bindf (disconnect st1 (sock_id s)) (\<lambda>st2. Inr (True, st2))
                 else Inr (True, st1)
            else if \<not> is_listen_sock s \<and> ERROR_NETNAME_DELETED = err then
              bindf (disconnect st (sock_id s)) (\<lambda>st2. Inr (True, st2))
            else Inr (False, st)))"

text \<open>
  One iteration of the loop of \<open>IOCP_TCPWorkThread::_Run\<close>, from the dequeue to the
  \<open>continue\<close>, the \<open>break\<close> or the end of the body.
\<close>

definition TCP_Run_iteration ::
  "worker \<Rightarrow> 'p::len sys_answers \<Rightarrow> 'p::len ULONG_PTR dequeued \<Rightarrow> 'p::len iocp \<times> run_locals \<Rightarrow>
   fault + (control \<times> 'p::len iocp \<times> run_locals)" where
  "TCP_Run_iteration w env d = (\<lambda>(st, l).
     bindf (after_dequeue d l) (\<lambda>l1.
     let sock_context = GetActiveContext st (run_sock_id l1)
     in case d of
          No_packet err \<Rightarrow>
            bindf (TCP_HandleError env st sock_context err) (\<lambda>(go, st1).
              Inr (if go then Continue else Break, st1, l1))
        | Failed_io n key p err \<Rightarrow>
            bindf (TCP_HandleError env st sock_context err) (\<lambda>(go, st1).
              Inr (if go then Continue else Break, st1, l1))
        | Completed n key None \<Rightarrow> Inr (Continue, st, l1)
        | Completed n key (Some io_data) \<Rightarrow>
            bindf (io_read st io_data) (\<lambda>c.
              if 0 = bytes_transfered l1 \<and>
                 (RECV_POSTED = operation c \<or> SEND_POSTED = operation c)
              then bindf (disconnect st (run_sock_id l1)) (\<lambda>st1. Inr (Continue, st1, l1))
              else
                (case operation c of
                   ACCEPT_POSTED \<Rightarrow>
                     bindf (TCP_DoAccept w env st sock_context io_data) (\<lambda>(r, st1).
                       Inr (Continue, st1, l1))
                 | RECV_POSTED \<Rightarrow>
                     bindf (sock_read st sock_context) (\<lambda>(a, s).
                       let st1 = sock_write st a
                             (s\<lparr>recv_context := (recv_context s)\<lparr>trans_len := bytes_transfered l1\<rparr>\<rparr>)
                       in bindf (TCP_DoRecv env st1 sock_context) (\<lambda>(r, st2).
                            Inr (Continue, st2, l1)))
                 | SEND_POSTED \<Rightarrow>
                     bindf (TCP_DoSend st sock_context io_data) (\<lambda>st1. Inr (Continue, st1, l1))
                 | NULL_POSTED \<Rightarrow> Inr (Continue, st, l1)))))"

section \<open>network/iocp\_udpworkthread.h\<close>

definition UDP_HandleError :: "'p::len iocp \<Rightarrow> addr option \<Rightarrow> u32 \<Rightarrow> fault + (bool \<times> 'p::len iocp)" where
  "UDP_HandleError st sp err =
     (case sp of
        None \<Rightarrow> Inr (True, st)
      | Some a \<Rightarrow>
          bindf (sock_read st sp) (\<lambda>(a, s).
            if WAIT_TIMEOUT = err then Inr (True, st)
            else if ERROR_NETNAME_DELETED = err then Inr (True, st)
            else Inr (False, st)))"

definition UDP_PostRecv :: "'p::len sys_answers \<Rightarrow> 'p::len iocp \<Rightarrow> addr option \<Rightarrow> fault + (bool \<times> 'p::len iocp)" where
  "UDP_PostRecv env st sp =
     bindf (sock_read st sp) (\<lambda>(a, s).
       let s1 = s\<lparr>recv_context := (IoContext_ResetBuffer (recv_context s))
                  \<lparr>remote_addr := zero_SOCKADDR_IN, operation := RECV_POSTED\<rparr>\<rparr>;
           st1 = emit (sock_write st a s1) [Call_WSARecvFrom (sock s1)]
       in Inr (WSARecv_posted env, st1))"

definition UDP_PostSend ::
  "'p::len sys_answers \<Rightarrow> 'p::len iocp \<Rightarrow> addr option \<Rightarrow> io_ptr \<Rightarrow> fault + (bool \<times> 'p::len iocp)" where
  "UDP_PostSend env st sp p =
     bindf (io_read st p) (\<lambda>c.
       let st0 = io_write st p (c\<lparr>operation := SEND_POSTED\<rparr>) in
       bindf (sock_read st0 sp) (\<lambda>(a, s).
         Inr (WSASend_posted env, emit st0 [Call_WSASendTo (sock s)])))"

definition UDP_DoRecv :: "'p::len sys_answers \<Rightarrow> 'p::len iocp \<Rightarrow> addr option \<Rightarrow> fault + (bool \<times> 'p::len iocp)" where
  "UDP_DoRecv env st sp =
     bindf (sock_read st sp) (\<lambda>(a, s).
       UDP_PostRecv env
         (emit st [ReceiveFromCallback (sock_id s) (buf (recv_context s))
                     (trans_len (recv_context s)) (remote_addr (recv_context s))])
         sp)"

definition UDP_DoSend :: "'p::len iocp \<Rightarrow> addr option \<Rightarrow> io_ptr \<Rightarrow> fault + 'p::len iocp" where
  "UDP_DoSend st sp p =
     (case sp of None \<Rightarrow> Inl Null_dereference | Some a \<Rightarrow> RemoveContext st a p)"

text \<open>One iteration of the loop of \<open>IOCP_UDPWorkThread::_Run\<close>.\<close>

definition UDP_Run_iteration ::
  "'p::len sys_answers \<Rightarrow> 'p::len ULONG_PTR dequeued \<Rightarrow> 'p::len iocp \<times> run_locals \<Rightarrow> fault + (control \<times> 'p::len iocp \<times> run_locals)" where
  "UDP_Run_iteration env d = (\<lambda>(st, l).
     bindf (after_dequeue d l) (\<lambda>l1.
     let sock_context = GetActiveContext st (run_sock_id l1)
     in case d of
          No_packet err \<Rightarrow>
            bindf (UDP_HandleError st sock_context err) (\<lambda>(go, st1).
              Inr (if go then Continue else Break, st1, l1))
        | Failed_io n key p err \<Rightarrow>
            bindf (UDP_HandleError st sock_context err) (\<lambda>(go, st1).
              Inr (if go then Continue else Break, st1, l1))
        | Completed n key None \<Rightarrow> Inr (Continue, st, l1)
        | Completed n key (Some io_data) \<Rightarrow>
            bindf (io_read st io_data) (\<lambda>c.
              case operation c of
                RECV_POSTED \<Rightarrow>
                  bindf (sock_read st sock_context) (\<lambda>(a, s).
                    let st1 = sock_write st a
                          (s\<lparr>recv_context := (recv_context s)\<lparr>trans_len := bytes_transfered l1\<rparr>\<rparr>)
                    in bindf (UDP_DoRecv env st1 sock_context) (\<lambda>(r, st2).
                         Inr (Continue, st2, l1)))
              | SEND_POSTED \<Rightarrow>
                  bindf (UDP_DoSend st sock_context io_data) (\<lambda>st1. Inr (Continue, st1, l1))
              | ACCEPT_POSTED \<Rightarrow> Inr (Continue, st, l1)
              | NULL_POSTED \<Rightarrow> Inr (Continue, st, l1))))"

section \<open>network/iocp\_tcpclient.h, iocp\_tcpsever.h and iocp\_udppeer.h\<close>

text \<open>
  \<open>memcpy(io_context->buf_, data, data_len)\<close>: the \<open>int\<close> length is converted to
  \<open>size_t\<close>, of the width of a pointer; \<open>buf_\<close> is an array of
  \<open>MAX_IO_BUFFER_SIZE\<close> bytes. Writing past the array, or reading past the caller's
  array \<open>src\<close>, is undefined behaviour.
\<close>

definition size_t_of_int :: "32 word \<Rightarrow> 'p::len word" where
  "size_t_of_int n = scast n"

definition memcpy_into_buf :: "u8 list \<Rightarrow> u8 list \<Rightarrow> 'p::len word \<Rightarrow> fault + u8 list" where
  "memcpy_into_buf dst src size_t_len =
     (let n = unat size_t_len
      in if length dst < n then Inl (Buffer_overrun n)
         else if length src < n then Inl Source_overrun
         else Inr (take n src @ drop n dst))"

definition CloseSocket :: "'p::len iocp \<Rightarrow> u32 \<Rightarrow> fault + 'p::len iocp" where
  "CloseSocket st key = DelActiveContext st key"

definition TCPClient_Send ::
  "'p::len sys_answers \<Rightarrow> 'p::len iocp \<Rightarrow> u32 \<Rightarrow> u8 list \<Rightarrow> 32 word \<Rightarrow> fault + (bool \<times> 'p::len iocp)" where
  "TCPClient_Send env st key src data_len =
     (if \<not> is_start st then Inr (False, st)
      else
        (case GetActiveContext st key of
           None \<Rightarrow> Inr (False, st)
         | Some a \<Rightarrow>
             let (io_context, st1) = GetIoContext (junk_sock env) st in
             bindf (io_read st1 io_context) (\<lambda>c.
               bindf (memcpy_into_buf (buf c) src (size_t_of_int data_len :: 'p::len word)) (\<lambda>b.
                 let c1 = c\<lparr>buf := b, wsa_buf := (wsa_buf c)\<lparr>wsabuf_len := data_len\<rparr>\<rparr>
                 in bindf (AddContext (io_write st1 io_context c1) a io_context) (\<lambda>st2.
                      TCP_PostSend env st2 (Some a) io_context)))))"

definition TCPServer_Send ::
  "'p::len sys_answers \<Rightarrow> 'p::len iocp \<Rightarrow> u32 \<Rightarrow> u8 list \<Rightarrow> 32 word \<Rightarrow> fault + (bool \<times> 'p::len iocp)" where
  "TCPServer_Send env st key src data_len =
     (if \<not> is_start st then Inr (False, st)
      else
        (case GetActiveContext st key of
           None \<Rightarrow> Inr (False, st)
         | Some a \<Rightarrow>
             let (io_context, st1) = GetIoContext (junk_sock env) st in
             bindf (io_read st1 io_context) (\<lambda>c.
               bindf (memcpy_into_buf (buf c) src (size_t_of_int data_len :: 'p::len word)) (\<lambda>b.
                 let c1 = c\<lparr>buf := b, wsa_buf := (wsa_buf c)\<lparr>wsabuf_len := data_len\<rparr>\<rparr>
                 in bindf (AddContext (io_write st1 io_context c1) a io_context) (\<lambda>st2.
                      TCP_PostSend env st2 (Some a) io_context)))))"

definition AF_INET :: u16 where
  "AF_INET = 2"

text \<open>
  \<open>SendTo\<close> with the destination as text and port: \<open>inet_addr(dst_ip)\<close> is the
  system's, \<open>htons\<close> swaps the two bytes on Windows.
\<close>

definition UDPNode_SendTo ::
  "'p::len sys_answers \<Rightarrow> 'p::len iocp \<Rightarrow> u32 \<Rightarrow> u8 list \<Rightarrow> 32 word \<Rightarrow> u32 \<Rightarrow> u16 \<Rightarrow> fault + (bool \<times> 'p::len iocp)" where
  "UDPNode_SendTo env st key src data_len inet_addr_dst_ip dst_port =
     (if \<not> is_start st then Inr (False, st)
      else
        (case GetActiveContext st key of
           None \<Rightarrow> Inr (False, st)
         | Some a \<Rightarrow>
             let (io_context, st1) = GetIoContext (junk_sock env) st in
             bindf (io_read st1 io_context) (\<lambda>c.
               bindf (memcpy_into_buf (buf c) src (size_t_of_int data_len :: 'p::len word)) (\<lambda>b.
                 let c1 = c\<lparr>buf := b, wsa_buf := (wsa_buf c)\<lparr>wsabuf_len := data_len\<rparr>,
                            remote_addr := \<lparr>sin_family = AF_INET, sin_port = ReverseShort dst_port,
                                             sin_addr = inet_addr_dst_ip, sin_zero = 0\<rparr>\<rparr>
                 in bindf (AddContext (io_write st1 io_context c1) a io_context) (\<lambda>st2.
                      UDP_PostSend env st2 (Some a) io_context)))))"

definition UDPNode_SendTo_addr ::
  "'p::len sys_answers \<Rightarrow> 'p::len iocp \<Rightarrow> u32 \<Rightarrow> u8 list \<Rightarrow> 32 word \<Rightarrow> SOCKADDR_IN \<Rightarrow> fault + (bool \<times> 'p::len iocp)" where
  "UDPNode_SendTo_addr env st key src data_len sock_addr =
     (if \<not> is_start st then Inr (False, st)
      else
        (case GetActiveContext st key of
           None \<Rightarrow> Inr (False, st)
         | Some a \<Rightarrow>
             let (io_context, st1) = GetIoContext (junk_sock env) st in
             bindf (io_read st1 io_context) (\<lambda>c.
               bindf (memcpy_into_buf (buf c) src (size_t_of_int data_len :: 'p::len word)) (\<lambda>b.
                 let c1 = c\<lparr>buf := b, wsa_buf := (wsa_buf c)\<lparr>wsabuf_len := data_len\<rparr>,
                            remote_addr := sock_addr\<rparr>
                 in bindf (AddContext (io_write st1 io_context c1) a io_context) (\<lambda>st2.
                      UDP_PostSend env st2 (Some a) io_context)))))"

text \<open>A call of one of the two operations of the context pool, as its clients make them.\<close>

datatype 's pool_call = Pool_get 's | Pool_put io_ptr

text \<open>
  A started client with two connected sockets, 5 and 9, for concrete runs; the system
  answers of a run in which every call succeeds; and a client's worker, which has no
  accept functions and no connect callback.
\<close>

definition connected :: "'p::len SOCKET \<Rightarrow> 'p::len IOCP_SocketContext" where
  "connected h =
     (IOCP_SocketContext_new INVALID_SOCKET zero_SOCKADDR_IN)
       \<lparr>sock := h, sock_id := ucast h,
        recv_context := (IOCP_IoContext_new INVALID_SOCKET)\<lparr>operation := RECV_POSTED\<rparr>\<rparr>"

definition two_sockets :: "'p::len iocp" where
  "two_sockets =
     (iocp_Init MEM_POOL_SIZE)
       \<lparr>sock_heap := [0 \<mapsto> connected 5, 1 \<mapsto> connected 9], next_addr := 2,
        map_active := [5 \<mapsto> 0, 9 \<mapsto> 1], is_start := True\<rparr>"

definition all_fine :: "'p::len sys_answers" where
  "all_fine =
     \<lparr>send_rc = 0, WSARecv_posted = True, WSASend_posted = True, AcceptEx_posted = True,
      WSASocket_result = 11, associated = True, accepted_remote_addr = zero_SOCKADDR_IN,
      junk_sock = 13, junk_addr = zero_SOCKADDR_IN\<rparr>"

definition client_worker :: worker where
  "client_worker =
     \<lparr>AcceptEx_set = False, GetAcceptExSockAddrs_set = False, ConnectedCallback_set = False\<rparr>"

text \<open>
  The states the context pool passes through under a sequence of calls, up to the first
  call with undefined behaviour (a \<open>PutIoContext\<close> of a pointer to no live context).
\<close>

fun pool_states :: "'p::len iocp \<Rightarrow> 'p::len SOCKET pool_call list \<Rightarrow> 'p::len iocp list" where
  "pool_states st [] = [st]"
| "pool_states st (Pool_get j # cs) = st # pool_states (snd (GetIoContext j st)) cs"
| "pool_states st (Pool_put p # cs) =
     st # (case PutIoContext st p of Inl f \<Rightarrow> [] | Inr st' \<Rightarrow> pool_states st' cs)"




text \<open>
  A client in which socket 5 was closed after a send and the context of that send was
  taken from the pool again for a send on socket 9; the same for a UDP node.
\<close>

definition reused_after_close :: "fault + 'p::len iocp" where
  "reused_after_close =
     bindf (TCPClient_Send all_fine two_sockets 5 [1, 2, 3] 3) (\<lambda>(ok1, st1).
       bindf (CloseSocket st1 5) (\<lambda>st2.
         bindf (TCPClient_Send all_fine st2 9 [4, 5, 6] 3) (\<lambda>(ok2, st3). Inr st3)))"

definition reused_after_close_udp :: "fault + 'p::len iocp" where
  "reused_after_close_udp =
     bindf (UDPNode_SendTo all_fine two_sockets 5 [1, 2, 3] 3 0x0100007f 17012) (\<lambda>(ok1, st1).
       bindf (CloseSocket st1 5) (\<lambda>st2.
         bindf (UDPNode_SendTo all_fine st2 9 [4, 5, 6] 3 0x0100007f 17012) (\<lambda>(ok2, st3). Inr st3)))"

text \<open>What an iteration did, as far as the outside can see: how it ended and the trace.\<close>

definition outcome :: "fault + (control \<times> 'p::len iocp \<times> run_locals) \<Rightarrow> fault + (control \<times> 'p::len SOCKET event list)" where
  "outcome r = (case r of Inl f \<Rightarrow> Inl f | Inr (c, st, l) \<Rightarrow> Inr (c, trace st))"

section \<open>Byte stream: capacity and cursors\<close>

lemma length_new_uint8_array [simp]: "length (new_uint8_array junk n) = n"
  by (simp add: new_uint8_array_def)

lemma Reserve_cases:
  "Reserve junk s n =
     (if n \<le> stream_size s \<and> data s \<noteq> None \<and> mallocated s then Inr s
      else case data s of
             None \<Rightarrow> Inr (s\<lparr>data := Some (new_uint8_array junk (unat (grown (stream_size s) n))),
                              stream_size := grown (stream_size s) n, mallocated := True\<rparr>)
           | Some old \<Rightarrow>
               (case memcpy (new_uint8_array junk (unat (grown (stream_size s) n))) 0 old 0 (unat (write_idx s)) of
                  None \<Rightarrow> Inl Undefined_Behaviour
                | Some d \<Rightarrow> Inr (s\<lparr>data := Some d, stream_size := grown (stream_size s) n, mallocated := True\<rparr>)))"
  unfolding Reserve_def grown_def Let_def
  by (auto simp: max_def not_less split: option.splits)

lemma grown_ge: "n \<le> grown old n"
  by (simp add: grown_def)

lemma unat_grown:
  assumes "unat old + max 1024 (unat old div 16) < 2 ^ 32"
  shows "unat old + max 1024 (unat old div 16) \<le> unat (grown old n)"
proof -
  have a: "unat (old + 1024) = unat old + 1024"
    using assms by (simp add: unat_add_lem [THEN iffD1])
  have b: "unat (old + old div 16) = unat old + unat old div 16"
    using assms by (simp add: unat_add_lem [THEN iffD1] unat_div)
  have "old + 1024 \<le> grown old n" "old + old div 16 \<le> grown old n"
    by (simp_all add: grown_def le_max_iff_disj)
  then have "unat (old + 1024) \<le> unat (grown old n)" "unat (old + old div 16) \<le> unat (grown old n)"
    by (simp_all add: word_le_nat_alt)
  with a b show ?thesis by simp
qed

text \<open>
  Claim C8, as amended. \<open>_Reserve(n)\<close> on a stream of capacity \<open>old\<close>, for every
  stream and every \<open>n\<close>:

  \<^item> when \<open>n\<close> is at most the capacity and the stream owns a non-null buffer, the
    stream is returned unchanged;

  \<^item> in every other case, also when \<open>n\<close> is at most the capacity of a borrowed or of a
    null buffer, the result is determined as follows. With
    \<open>cap = max(n, old + 1024, old + old/16)\<close> in 32-bit arithmetic, a stream without a
    buffer gets a new array of \<open>cap\<close> bytes; a stream with a buffer gets a new array
    of \<open>cap\<close> bytes that holds the bytes of the old buffer below the write cursor,
    and the copy is undefined behaviour when the write cursor lies beyond the old buffer
    or beyond \<open>cap\<close>. The stream then owns the new array, its capacity is \<open>cap\<close>,
    and the cursors and the byte order are as before;

  \<^item> \<open>cap\<close> is at least \<open>n\<close>, and at least \<open>old + max(1024, old/16)\<close> when that
    sum is below \<open>2^32\<close>;

  \<^item> on a well-formed stream with that sum below \<open>2^32\<close> the call returns.
\<close>

theorem Reserve_growth:
  "(let old = stream_size s;
        w = unat (write_idx s);
        cap = max n (max (old + 1024) (old + old div 16));
        fresh = new_uint8_array junk (unat cap);
        small = unat old + max 1024 (unat old div 16) < 2 ^ 32
    in (n \<le> old \<and> data s \<noteq> None \<and> mallocated s \<longrightarrow> Reserve junk s n = Inr s) \<and>
       (\<not> (n \<le> old \<and> data s \<noteq> None \<and> mallocated s) \<longrightarrow>
          Reserve junk s n =
            (case data s of
               None \<Rightarrow> Inr (s\<lparr>data := Some fresh, stream_size := cap, mallocated := True\<rparr>)
             | Some d \<Rightarrow>
                 if w \<le> length d \<and> w \<le> unat cap
                 then Inr (s\<lparr>data := Some (take w d @ drop w fresh), stream_size := cap,
                             mallocated := True\<rparr>)
                 else Inl Undefined_Behaviour)) \<and>
       (\<forall>s'. \<not> (n \<le> old \<and> data s \<noteq> None \<and> mallocated s) \<and> Reserve junk s n = Inr s' \<longrightarrow>
          stream_size s' = cap \<and> mallocated s' \<and>
          (\<exists>d'. data s' = Some d' \<and> length d' = unat cap \<and>
                 (\<forall>d. data s = Some d \<longrightarrow> take w d' = take w d)) \<and>
          read_idx s' = read_idx s \<and> write_idx s' = write_idx s \<and>
          byte_order s' = byte_order s) \<and>
       n \<le> cap \<and>
       (small \<longrightarrow> unat old + max 1024 (unat old div 16) \<le> unat cap) \<and>
       (well_formed s \<and> small \<longrightarrow> (\<exists>s'. Reserve junk s n = Inr s')))"
proof -
  let ?old = "stream_size s"
  let ?w = "unat (write_idx s)"
  let ?cap = "max n (max (?old + 1024) (?old + ?old div 16))"
  let ?fresh = "new_uint8_array junk (unat ?cap)"
  let ?small = "unat ?old + max 1024 (unat ?old div 16) < 2 ^ 32"
  let ?keep = "n \<le> ?old \<and> data s \<noteq> None \<and> mallocated s"
  let ?moved = "case data s of
                  None \<Rightarrow> Inr (s\<lparr>data := Some ?fresh, stream_size := ?cap, mallocated := True\<rparr>)
                | Some d \<Rightarrow>
                    if ?w \<le> length d \<and> ?w \<le> unat ?cap
                    then Inr (s\<lparr>data := Some (take ?w d @ drop ?w ?fresh), stream_size := ?cap,
                                mallocated := True\<rparr>)
                    else Inl Undefined_Behaviour"
  have cap: "grown ?old n = ?cap" by (simp add: grown_def)
  have unchanged: "?keep \<longrightarrow> Reserve junk s n = Inr s"
    by (simp add: Reserve_cases)
  have moved: "\<not> ?keep \<longrightarrow> Reserve junk s n = ?moved"
    by (auto simp: Reserve_cases cap memcpy_def split: option.splits)
  have after: "\<forall>s'. \<not> ?keep \<and> Reserve junk s n = Inr s' \<longrightarrow>
          stream_size s' = ?cap \<and> mallocated s' \<and>
          (\<exists>d'. data s' = Some d' \<and> length d' = unat ?cap \<and>
                 (\<forall>d. data s = Some d \<longrightarrow> take ?w d' = take ?w d)) \<and>
          read_idx s' = read_idx s \<and> write_idx s' = write_idx s \<and>
          byte_order s' = byte_order s"
  proof (intro allI impI)
    fix s' assume a: "\<not> ?keep \<and> Reserve junk s n = Inr s'"
    with moved have m: "?moved = Inr s'" by simp
    show "stream_size s' = ?cap \<and> mallocated s' \<and>
          (\<exists>d'. data s' = Some d' \<and> length d' = unat ?cap \<and>
                 (\<forall>d. data s = Some d \<longrightarrow> take ?w d' = take ?w d)) \<and>
          read_idx s' = read_idx s \<and> write_idx s' = write_idx s \<and>
          byte_order s' = byte_order s"
    proof (cases "data s")
      case None
      with m show ?thesis by auto
    next
      case (Some d)
      with m have fits: "?w \<le> length d" "?w \<le> unat ?cap"
        and s': "s' = s\<lparr>data := Some (take ?w d @ drop ?w ?fresh), stream_size := ?cap,
                         mallocated := True\<rparr>"
        by (auto split: if_splits)
      from fits have "length (take ?w d @ drop ?w ?fresh) = unat ?cap" by simp
      moreover from fits have "take ?w (take ?w d @ drop ?w ?fresh) = take ?w d" by simp
      ultimately show ?thesis using Some s' by simp
    qed
  qed
  have ge: "n \<le> ?cap" by simp
  have bound: "?small \<longrightarrow> unat ?old + max 1024 (unat ?old div 16) \<le> unat ?cap"
    using unat_grown [of ?old n] by (simp add: cap)
  have returns: "well_formed s \<and> ?small \<longrightarrow> (\<exists>s'. Reserve junk s n = Inr s')"
  proof
    assume a: "well_formed s \<and> ?small"
    show "\<exists>s'. Reserve junk s n = Inr s'"
    proof (cases ?keep)
      case True
      with unchanged show ?thesis by blast
    next
      case False
      show ?thesis
      proof (cases "data s")
        case None
        with False moved show ?thesis by auto
      next
        case (Some d)
        with a have "?w \<le> length d" "?w \<le> unat ?old"
          by (simp_all add: well_formed_def word_le_nat_alt)
        moreover from a bound have "unat ?old \<le> unat ?cap" by simp
        ultimately have "?w \<le> length d \<and> ?w \<le> unat ?cap" by simp
        with False moved Some show ?thesis by auto
      qed
    qed
  qed
  from unchanged moved after ge bound returns show ?thesis
    unfolding Let_def by blast
qed

text \<open>
  Two calls on a stream of four bytes that owns its buffer: a request for three bytes
  changes nothing, a request for ten moves it to a buffer of 1028 bytes.
\<close>

theorem Reserve_growth_witness:
  "Reserve [] (ByteStream_sized win_le [] 4) 3 = Inr (ByteStream_sized win_le [] 4) \<and>
   well_formed (ByteStream_sized win_le [] 4) \<and>
   Reserve [] (ByteStream_sized win_le [] 4) 10 =
     Inr \<lparr>data = Some (replicate 1028 0), read_idx = 0, write_idx = 0,
          stream_size = 1028, mallocated = True, byte_order = LITTLE_ENDIAN\<rparr>"
proof -
  let ?s = "ByteStream_sized win_le [] 4"
  have s: "?s = \<lparr>data = Some [0, 0, 0, 0], read_idx = 0, write_idx = 0,
                 stream_size = 4, mallocated = True, byte_order = LITTLE_ENDIAN\<rparr>"
    by code_simp
  have wf: "well_formed ?s" by (simp add: s well_formed_def)
  from Reserve_growth [where s = ?s and n = 3 and junk = "[]"] have keep: "Reserve [] ?s 3 = Inr ?s"
    by (simp add: s Let_def)
  from Reserve_growth [where s = ?s and n = 10 and junk = "[]"]
  have "Reserve [] ?s 10 =
     Inr \<lparr>data = Some (replicate 1028 0), read_idx = 0, write_idx = 0,
          stream_size = 1028, mallocated = True, byte_order = LITTLE_ENDIAN\<rparr>"
    by (simp add: s Let_def new_uint8_array_def)
  with keep wf show ?thesis by simp
qed

text \<open>
  Claim C8 as stated fails. A stream wraps a caller's 8-byte array and its write cursor is
  set to 1; its capacity is 8. \<open>_Reserve(2)\<close>, the call \<open>Add\<close> makes for one more
  byte, nevertheless moves the stream to a new buffer of capacity 1032.
\<close>

theorem Reserve_borrowed_counterexample:
  "(2 :: u32) \<le> stream_size (SetWritePtr (ByteStream_wrap win_le (Some [1, 2, 3, 4, 5, 6, 7, 8]) 8) 1) \<and>
   Reserve [] (SetWritePtr (ByteStream_wrap win_le (Some [1, 2, 3, 4, 5, 6, 7, 8]) 8) 1) 2 =
     Inr \<lparr>data = Some (1 # replicate 1031 0), read_idx = 0, write_idx = 1,
          stream_size = 1032, mallocated = True, byte_order = LITTLE_ENDIAN\<rparr>"
  by (simp add: Reserve_def ByteStream_wrap_def SetWritePtr_def memcpy_def new_uint8_array_def
      Let_def win_le_def HOST_BYTEORDER_def)

text \<open>
  The additions of \<open>_Reserve\<close> wrap around: at capacity \<open>0xFFFFFFF0\<close> a request for
  \<open>0xFFFFFFF8\<close> bytes is granted exactly, 8 bytes above the old capacity.
\<close>

lemma Reserve_wraps_around:
  "Reserve [] (ByteStream_sized win_le [] 0xFFFFFFF0) 0xFFFFFFF8 =
     Inr \<lparr>data = Some (replicate 4294967288 0), read_idx = 0, write_idx = 0,
          stream_size = 0xFFFFFFF8, mallocated = True, byte_order = LITTLE_ENDIAN\<rparr>"
  by (simp add: Reserve_def ByteStream_sized_def memcpy_def new_uint8_array_def Let_def
      win_le_def HOST_BYTEORDER_def)

text \<open>
  What \<open>SetReadPtr\<close> does, for every stream and every position. The cursor is
  handled as claim C9 says: a position beyond the write cursor is refused and the stream
  is left as it was, the read cursor included; every position up to and including the
  write cursor is accepted. What is thrown on refusal is the integer \<open>-1\<close>.
\<close>

lemma SetReadPtr_cursor:
  "(write_idx s < idx \<longrightarrow> SetReadPtr s idx = Inl (Throw (int_exception (- 1)) s)) \<and>
   (idx \<le> write_idx s \<longrightarrow> SetReadPtr s idx = Inr (s\<lparr>read_idx := idx\<rparr>))"
  by (auto simp: SetReadPtr_def)

lemma SetReadPtr_never_access_violation:
  "SetReadPtr s idx \<noteq> Inl (Throw (access_violation_exception m) s')"
  by (simp add: SetReadPtr_def)

text \<open>
  Claim C9 fails on the code: \<open>SetReadPtr(5)\<close> on a stream of four bytes, whose write
  cursor is 4, throws the integer \<open>-1\<close> where the claim has the access-violation error.
  \<open>Get(5)\<close> on the same stream, refusing the same overrun of the write cursor, throws
  \<open>access_violation_exception\<close>, the class that \<open>base/exception.h\<close> defines for it.
\<close>

theorem SetReadPtr_throws_int:
  "SetReadPtr (ByteStream_wrap win_le (Some [1, 2, 3, 4]) 4) 5 =
     Inl (Throw (int_exception (- 1)) (ByteStream_wrap win_le (Some [1, 2, 3, 4]) 4)) \<and>
   SetReadPtr (ByteStream_wrap win_le (Some [1, 2, 3, 4]) 4) 5 \<noteq>
     Inl (Throw (access_violation_exception ''byte stream overflow'')
          (ByteStream_wrap win_le (Some [1, 2, 3, 4]) 4)) \<and>
   Get (ByteStream_wrap win_le (Some [1, 2, 3, 4]) 4) 5 =
     Inl (Throw (access_violation_exception ''byte stream overflow'')
          (ByteStream_wrap win_le (Some [1, 2, 3, 4]) 4))"
  by (simp add: SetReadPtr_def Get_def ByteStream_wrap_def)
section \<open>Byte order and typed round trips\<close>

lemma m16: "(0x00ff :: u16) = mask 8" "(0xff00 :: u16) = push_bit 8 (mask 8)"
  by (simp_all add: mask_eq_exp_minus_1 push_bit_eq_mult)

lemma ReverseShort_bits:
  "ReverseShort d = push_bit 8 (take_bit 8 d) OR take_bit 8 (drop_bit 8 d)"
  unfolding ReverseShort_def m16
  apply (rule bit_word_eqI)
  apply (simp add: bit_simps less_imp_diff_less)
  apply blast
  done

lemma ReverseShort_byte0: "(ucast (ReverseShort d) :: u8) = ucast (drop_bit 8 d)"
  unfolding ReverseShort_bits
  by (rule bit_word_eqI) (simp add: bit_simps)

lemma ReverseShort_byte1: "(ucast (drop_bit 8 (ReverseShort d)) :: u8) = ucast d"
  unfolding ReverseShort_bits
  by (rule bit_word_eqI) (simp add: bit_simps)

lemma le_bytes_numeral:
  "le_bytes (numeral k) w = ucast w # le_bytes (pred_numeral k) (drop_bit 8 w)"
  by (simp add: numeral_eq_Suc)

lemma le_bytes_ReverseShort: "le_bytes 2 (ReverseShort d) = rev (le_bytes 2 d)"
  by (simp add: le_bytes_numeral ReverseShort_byte0 ReverseShort_byte1)


lemma le_word_le_bytes: "(le_word (le_bytes n w) :: 'a::len word) = take_bit (8 * n) w"
proof (induction n arbitrary: w)
  case 0
  show ?case by simp
next
  case (Suc n)
  show ?case
    apply (simp add: Suc)
    apply (rule bit_word_eqI)
    apply (auto simp add: bit_simps)
    done
qed

lemma m32: "(0x000000ff :: u32) = mask 8" "(0x0000ff00 :: u32) = push_bit 8 (mask 8)"
  "(0x00ff0000 :: u32) = push_bit 16 (mask 8)" "(0xff000000 :: u32) = push_bit 24 (mask 8)"
  by (simp_all add: mask_eq_exp_minus_1 push_bit_eq_mult)

lemma ReverseInt_byte0: "(ucast (ReverseInt d) :: u8) = ucast (drop_bit 24 d)"
  unfolding ReverseInt_def m32
  by (rule bit_word_eqI) (simp add: bit_simps)

lemma ReverseInt_byte1: "(ucast (drop_bit 8 (ReverseInt d)) :: u8) = ucast (drop_bit 16 d)"
  unfolding ReverseInt_def m32
  by (rule bit_word_eqI) (simp add: bit_simps)

lemma ReverseInt_byte2: "(ucast (drop_bit 16 (ReverseInt d)) :: u8) = ucast (drop_bit 8 d)"
  unfolding ReverseInt_def m32
  by (rule bit_word_eqI) (simp add: bit_simps)

lemma ReverseInt_byte3: "(ucast (drop_bit 24 (ReverseInt d)) :: u8) = ucast d"
  unfolding ReverseInt_def m32
  by (rule bit_word_eqI) (simp add: bit_simps)


lemma m64:
  "(0xff00000000000000 :: u64) = push_bit 56 (mask 8)"
  "(0x00ff000000000000 :: u64) = push_bit 48 (mask 8)"
  "(0x0000ff0000000000 :: u64) = push_bit 40 (mask 8)"
  "(0x000000ff00000000 :: u64) = push_bit 32 (mask 8)"
  "(0x00000000ff000000 :: u64) = push_bit 24 (mask 8)"
  "(0x0000000000ff0000 :: u64) = push_bit 16 (mask 8)"
  "(0x000000000000ff00 :: u64) = push_bit 8 (mask 8)"
  "(0x00000000000000ff :: u64) = mask 8"
  by (simp_all add: mask_eq_exp_minus_1 push_bit_eq_mult)

lemma ReverseLong_byte0: "(ucast (ReverseLong d) :: u8) = ucast (drop_bit 56 d)"
  unfolding ReverseLong_def m64
  by (rule bit_word_eqI) (simp add: bit_simps)

lemma ReverseLong_byte1: "(ucast (drop_bit 8 (ReverseLong d)) :: u8) = ucast (drop_bit 48 d)"
  unfolding ReverseLong_def m64
  by (rule bit_word_eqI) (simp add: bit_simps)

lemma ReverseLong_byte2: "(ucast (drop_bit 16 (ReverseLong d)) :: u8) = ucast (drop_bit 40 d)"
  unfolding ReverseLong_def m64
  by (rule bit_word_eqI) (simp add: bit_simps)

lemma ReverseLong_byte3: "(ucast (drop_bit 24 (ReverseLong d)) :: u8) = ucast (drop_bit 32 d)"
  unfolding ReverseLong_def m64
  by (rule bit_word_eqI) (simp add: bit_simps)

lemma ReverseLong_byte4: "(ucast (drop_bit 32 (ReverseLong d)) :: u8) = ucast (drop_bit 24 d)"
  unfolding ReverseLong_def m64
  by (rule bit_word_eqI) (simp add: bit_simps)

lemma ReverseLong_byte5: "(ucast (drop_bit 40 (ReverseLong d)) :: u8) = ucast (drop_bit 16 d)"
  unfolding ReverseLong_def m64
  by (rule bit_word_eqI) (simp add: bit_simps)

lemma ReverseLong_byte6: "(ucast (drop_bit 48 (ReverseLong d)) :: u8) = ucast (drop_bit 8 d)"
  unfolding ReverseLong_def m64
  by (rule bit_word_eqI) (simp add: bit_simps)

lemma ReverseLong_byte7: "(ucast (drop_bit 56 (ReverseLong d)) :: u8) = ucast d"
  unfolding ReverseLong_def m64
  by (rule bit_word_eqI) (simp add: bit_simps)

lemma le_bytes_ReverseInt: "le_bytes 4 (ReverseInt d) = rev (le_bytes 4 d)"
  by (simp add: le_bytes_numeral ReverseInt_byte0 ReverseInt_byte1 ReverseInt_byte2 ReverseInt_byte3)

lemma le_bytes_ReverseLong: "le_bytes 8 (ReverseLong d) = rev (le_bytes 8 d)"
  by (simp add: le_bytes_numeral ReverseLong_byte0 ReverseLong_byte1 ReverseLong_byte2
      ReverseLong_byte3 ReverseLong_byte4 ReverseLong_byte5 ReverseLong_byte6 ReverseLong_byte7)

lemma le_word_le_bytes_full:
  "8 * n = LENGTH('a) \<Longrightarrow> (le_word (le_bytes n w) :: 'a::len word) = w"
  by (simp add: le_word_le_bytes)

lemma ReverseShort_involution: "ReverseShort (ReverseShort d) = d"
proof -
  have "le_bytes 2 (ReverseShort (ReverseShort d)) = le_bytes 2 d"
    by (simp only: le_bytes_ReverseShort rev_rev_ident)
  then have "(le_word (le_bytes 2 (ReverseShort (ReverseShort d))) :: u16) = le_word (le_bytes 2 d)"
    by simp
  then show ?thesis by (simp add: le_word_le_bytes_full)
qed

lemma ReverseInt_involution: "ReverseInt (ReverseInt d) = d"
proof -
  have "le_bytes 4 (ReverseInt (ReverseInt d)) = le_bytes 4 d"
    by (simp only: le_bytes_ReverseInt rev_rev_ident)
  then have "(le_word (le_bytes 4 (ReverseInt (ReverseInt d))) :: u32) = le_word (le_bytes 4 d)"
    by simp
  then show ?thesis by (simp add: le_word_le_bytes_full)
qed

lemma ReverseLong_involution: "ReverseLong (ReverseLong d) = d"
proof -
  have "le_bytes 8 (ReverseLong (ReverseLong d)) = le_bytes 8 d"
    by (simp only: le_bytes_ReverseLong rev_rev_ident)
  then have "(le_word (le_bytes 8 (ReverseLong (ReverseLong d))) :: u64) = le_word (le_bytes 8 d)"
    by simp
  then show ?thesis by (simp add: le_word_le_bytes_full)
qed

lemma object_value_bytes:
  "8 * n = LENGTH('a) \<Longrightarrow> (object_value t (object_bytes t n w) :: 'a::len word) = w"
  by (simp add: object_value_def object_bytes_def le_word_le_bytes_full split: BYTEORDER.split)

lemma length_le_bytes [simp]: "length (le_bytes n w) = n"
  by (induction n arbitrary: w) simp_all

lemma length_object_bytes [simp]: "length (object_bytes t n w) = n"
  by (simp add: object_bytes_def split: BYTEORDER.split)

lemma Reserve_ok:
  assumes wf: "well_formed s" and le: "write_idx s \<le> n"
  shows "\<exists>s1 d1. Reserve junk s n = Inr s1 \<and> data s1 = Some d1 \<and>
           length d1 = unat (stream_size s1) \<and> n \<le> stream_size s1 \<and>
           read_idx s1 = read_idx s \<and> write_idx s1 = write_idx s \<and>
           byte_order s1 = byte_order s \<and>
           (\<forall>d. data s = Some d \<longrightarrow> take (unat (write_idx s)) d1 = take (unat (write_idx s)) d)"
proof (cases "n \<le> stream_size s \<and> data s \<noteq> None \<and> mallocated s")
  case True
  then obtain d where d: "data s = Some d" by auto
  with wf have "length d = unat (stream_size s)" by (simp add: well_formed_def)
  with True d show ?thesis by (simp add: Reserve_cases)
next
  case False
  let ?g = "grown (stream_size s) n"
  have g: "n \<le> ?g" by (rule grown_ge)
  show ?thesis
  proof (cases "data s")
    case None
    with False have "Reserve junk s n = Inr (s\<lparr>data := Some (new_uint8_array junk (unat ?g)),
        stream_size := ?g, mallocated := True\<rparr>)"
      by (auto simp: Reserve_cases)
    with None g show ?thesis by simp
  next
    case (Some old)
    with wf have old: "unat (write_idx s) \<le> length old"
      by (simp add: well_formed_def word_le_nat_alt)
    from le g have wg: "unat (write_idx s) \<le> unat ?g"
      by (simp add: word_le_nat_alt)
    let ?d = "take (unat (write_idx s)) old @ drop (unat (write_idx s)) (new_uint8_array junk (unat ?g))"
    from old wg have m: "memcpy (new_uint8_array junk (unat ?g)) 0 old 0 (unat (write_idx s)) = Some ?d"
      by (simp add: memcpy_def)
    with False Some have "Reserve junk s n = Inr (s\<lparr>data := Some ?d,
        stream_size := ?g, mallocated := True\<rparr>)"
      by (auto simp: Reserve_cases)
    moreover from old wg have "length ?d = unat ?g" by simp
    moreover from old have "take (unat (write_idx s)) ?d = take (unat (write_idx s)) old" by simp
    ultimately show ?thesis using Some g by simp
  qed
qed

lemma Add_ok:
  assumes wf: "well_formed s" and pos: "sz \<noteq> 0" and len: "length bytes = unat sz"
    and fit: "unat (write_idx s) + unat sz < 2 ^ 32"
  shows "\<exists>s1 d1. Add junk s (Some bytes) sz = Inr s1 \<and> data s1 = Some d1 \<and>
           length d1 = unat (stream_size s1) \<and> write_idx s1 \<le> stream_size s1 \<and>
           read_idx s1 = read_idx s \<and> write_idx s1 = write_idx s + sz \<and>
           byte_order s1 = byte_order s \<and>
           take (unat sz) (drop (unat (write_idx s)) d1) = bytes \<and>
           (\<forall>d. data s = Some d \<longrightarrow> take (unat (write_idx s)) d1 = take (unat (write_idx s)) d)"
proof -
  from fit have sum: "unat (write_idx s + sz) = unat (write_idx s) + unat sz"
    by (simp add: unat_add_lem [THEN iffD1])
  then have le: "write_idx s \<le> write_idx s + sz"
    by (simp add: word_le_nat_alt)
  from Reserve_ok [OF wf le, of junk] obtain s1 d1 where
    r: "Reserve junk s (write_idx s + sz) = Inr s1" and d1: "data s1 = Some d1"
    and l1: "length d1 = unat (stream_size s1)" and n1: "write_idx s + sz \<le> stream_size s1"
    and same: "read_idx s1 = read_idx s" "write_idx s1 = write_idx s" "byte_order s1 = byte_order s"
    and pre: "\<forall>d. data s = Some d \<longrightarrow> take (unat (write_idx s)) d1 = take (unat (write_idx s)) d"
    by blast
  from n1 sum l1 have room: "unat (write_idx s) + unat sz \<le> length d1"
    by (simp add: word_le_nat_alt)
  let ?d = "take (unat (write_idx s)) d1 @ bytes @ drop (unat (write_idx s) + unat sz) d1"
  from room len same have m: "memcpy d1 (unat (write_idx s1)) bytes 0 (unat sz) = Some ?d"
    by (simp add: memcpy_def)
  with r d1 pos same have "Add junk s (Some bytes) sz =
      Inr (s1\<lparr>data := Some ?d, write_idx := write_idx s + sz\<rparr>)"
    by (simp add: Add_def)
  moreover from room len l1 have "length ?d = unat (stream_size s1)" by simp
  moreover from room len have "take (unat sz) (drop (unat (write_idx s)) ?d) = bytes" by simp
  moreover have "\<forall>d. data s = Some d \<longrightarrow> take (unat (write_idx s)) ?d = take (unat (write_idx s)) d"
  proof -
    from room have tk: "take (unat (write_idx s)) ?d = take (unat (write_idx s)) d1" by simp
    from pre show ?thesis by (simp only: tk)
  qed
  ultimately show ?thesis using n1 same by simp
qed

lemma Get_ok:
  assumes d: "data s = Some d" and fit: "unat (read_idx s) + unat sz \<le> unat (write_idx s)"
    and ext: "unat (write_idx s) \<le> length d"
  shows "Get s sz = Inr (take (unat sz) (drop (unat (read_idx s)) d), s\<lparr>read_idx := read_idx s + sz\<rparr>)"
proof -
  have "unat (write_idx s) < 2 ^ 32" using unsigned_less [of "write_idx s"] by simp
  with fit have sum: "unat (sz + read_idx s) = unat sz + unat (read_idx s)"
    by (simp add: unat_add_lem [THEN iffD1])
  with fit have "\<not> sz + read_idx s > write_idx s"
    by (simp add: word_less_nat_alt)
  with d fit ext show ?thesis by (simp add: Get_def)
qed

lemma Add_then_Get:
  assumes wf: "well_formed s" and pos: "sz \<noteq> 0" and len: "length bytes = unat sz"
    and fit: "unat (write_idx s) + unat sz < 2 ^ 32"
  shows "\<exists>s1. Add junk s (Some bytes) sz = Inr s1 \<and> write_idx s1 = write_idx s + sz \<and>
           byte_order s1 = byte_order s \<and>
           SetReadPtr s1 (write_idx s) = Inr (s1\<lparr>read_idx := write_idx s\<rparr>) \<and>
           Get (s1\<lparr>read_idx := write_idx s\<rparr>) sz = Inr (bytes, s1\<lparr>read_idx := write_idx s + sz\<rparr>)"
proof -
  from Add_ok [OF wf pos len fit, of junk] obtain s1 d1 where
    a: "Add junk s (Some bytes) sz = Inr s1" and d1: "data s1 = Some d1"
    and l1: "length d1 = unat (stream_size s1)" and w1: "write_idx s1 \<le> stream_size s1"
    and wr: "write_idx s1 = write_idx s + sz" and bo: "byte_order s1 = byte_order s"
    and tk: "take (unat sz) (drop (unat (write_idx s)) d1) = bytes"
    by blast
  from fit have sum: "unat (write_idx s + sz) = unat (write_idx s) + unat sz"
    by (simp add: unat_add_lem [THEN iffD1])
  then have le: "write_idx s \<le> write_idx s + sz"
    by (simp add: word_le_nat_alt)
  with wr have sr: "SetReadPtr s1 (write_idx s) = Inr (s1\<lparr>read_idx := write_idx s\<rparr>)"
    by (simp add: SetReadPtr_def not_less [symmetric])
  let ?s2 = "s1\<lparr>read_idx := write_idx s\<rparr>"
  from w1 l1 have ext: "unat (write_idx ?s2) \<le> length d1"
    by (simp add: word_le_nat_alt)
  from wr sum have fit2: "unat (read_idx ?s2) + unat sz \<le> unat (write_idx ?s2)"
    by simp
  from d1 have "data ?s2 = Some d1" by simp
  from Get_ok [OF this fit2 ext] tk
  have "Get ?s2 sz = Inr (bytes, s1\<lparr>read_idx := write_idx s + sz\<rparr>)" by simp
  with a wr bo sr show ?thesis by blast
qed

lemma round_trip_8:
  assumes wf: "well_formed s" and fit: "unat (write_idx s) + 8 < 2 ^ 32"
  shows "round_trip (PutInt8 t junk) (GetInt8 t) s v" "round_trip (PutUint8 t junk) (GetUint8 t) s v"
proof -
  from fit have fit': "unat (write_idx s) + unat (1 :: u32) < 2 ^ 32" by simp
  from Add_then_Get [OF wf _ _ fit', of "object_bytes t 1 v" junk]
  obtain s1 where "Add junk s (Some (object_bytes t 1 v)) 1 = Inr s1"
    "write_idx s1 = write_idx s + 1"
    "SetReadPtr s1 (write_idx s) = Inr (s1\<lparr>read_idx := write_idx s\<rparr>)"
    "Get (s1\<lparr>read_idx := write_idx s\<rparr>) 1 = Inr (object_bytes t 1 v, s1\<lparr>read_idx := write_idx s + 1\<rparr>)"
    by auto
  then show "round_trip (PutInt8 t junk) (GetInt8 t) s v" "round_trip (PutUint8 t junk) (GetUint8 t) s v"
    by (simp_all add: round_trip_def PutInt8_def GetInt8_def shl_int8_def shr_int8_def
        PutUint8_def GetUint8_def shl_uint8_def shr_uint8_def object_value_bytes)
qed

lemma round_trip_16:
  assumes wf: "well_formed s" and fit: "unat (write_idx s) + 8 < 2 ^ 32"
  shows "round_trip (PutInt16 t junk) (GetInt16 t) s v" "round_trip (PutUint16 t junk) (GetUint16 t) s v"
proof -
  let ?w = "WriteByteorder_uint16 t s v"
  from fit have fit': "unat (write_idx s) + unat (2 :: u32) < 2 ^ 32" by simp
  from Add_then_Get [OF wf _ _ fit', of "object_bytes t 2 ?w" junk]
  obtain s1 where "Add junk s (Some (object_bytes t 2 ?w)) 2 = Inr s1"
    "write_idx s1 = write_idx s + 2" "byte_order s1 = byte_order s"
    "SetReadPtr s1 (write_idx s) = Inr (s1\<lparr>read_idx := write_idx s\<rparr>)"
    "Get (s1\<lparr>read_idx := write_idx s\<rparr>) 2 = Inr (object_bytes t 2 ?w, s1\<lparr>read_idx := write_idx s + 2\<rparr>)"
    by auto
  then show "round_trip (PutInt16 t junk) (GetInt16 t) s v" "round_trip (PutUint16 t junk) (GetUint16 t) s v"
    by (simp_all add: round_trip_def PutInt16_def GetInt16_def shl_int16_def shr_int16_def
        PutUint16_def GetUint16_def shl_uint16_def shr_uint16_def object_value_bytes
        WriteByteorder_int16_def WriteByteorder_uint16_def ReadByteorder_int16_def
        ReadByteorder_uint16_def HtonUint16_def NtohUint16_def ReverseShort_involution)
qed


lemma round_trip_32:
  assumes wf: "well_formed s" and fit: "unat (write_idx s) + 8 < 2 ^ 32"
  shows "round_trip (PutInt32 t junk) (GetInt32 t) s v" "round_trip (PutUint32 t junk) (GetUint32 t) s v"
proof -
  let ?w = "WriteByteorder_uint32 t s v"
  from fit have fit': "unat (write_idx s) + unat (4 :: u32) < 2 ^ 32" by simp
  from Add_then_Get [OF wf _ _ fit', of "object_bytes t 4 ?w" junk]
  obtain s1 where "Add junk s (Some (object_bytes t 4 ?w)) 4 = Inr s1"
    "write_idx s1 = write_idx s + 4" "byte_order s1 = byte_order s"
    "SetReadPtr s1 (write_idx s) = Inr (s1\<lparr>read_idx := write_idx s\<rparr>)"
    "Get (s1\<lparr>read_idx := write_idx s\<rparr>) 4 = Inr (object_bytes t 4 ?w, s1\<lparr>read_idx := write_idx s + 4\<rparr>)"
    by auto
  then show "round_trip (PutInt32 t junk) (GetInt32 t) s v" "round_trip (PutUint32 t junk) (GetUint32 t) s v"
    by (simp_all add: round_trip_def PutInt32_def GetInt32_def shl_int32_def shr_int32_def
        PutUint32_def GetUint32_def shl_uint32_def shr_uint32_def object_value_bytes
        WriteByteorder_int32_def WriteByteorder_uint32_def ReadByteorder_int32_def
        ReadByteorder_uint32_def HtonUint32_def NtohUint32_def ReverseInt_involution)
qed


lemma round_trip_64:
  assumes wf: "well_formed s" and fit: "unat (write_idx s) + 8 < 2 ^ 32"
  shows "round_trip (PutInt64 t junk) (GetInt64 t) s v" "round_trip (PutUint64 t junk) (GetUint64 t) s v"
proof -
  let ?w = "WriteByteorder_uint64 t s v"
  from fit have fit': "unat (write_idx s) + unat (8 :: u32) < 2 ^ 32" by simp
  from Add_then_Get [OF wf _ _ fit', of "object_bytes t 8 ?w" junk]
  obtain s1 where "Add junk s (Some (object_bytes t 8 ?w)) 8 = Inr s1"
    "write_idx s1 = write_idx s + 8" "byte_order s1 = byte_order s"
    "SetReadPtr s1 (write_idx s) = Inr (s1\<lparr>read_idx := write_idx s\<rparr>)"
    "Get (s1\<lparr>read_idx := write_idx s\<rparr>) 8 = Inr (object_bytes t 8 ?w, s1\<lparr>read_idx := write_idx s + 8\<rparr>)"
    by auto
  then show "round_trip (PutInt64 t junk) (GetInt64 t) s v" "round_trip (PutUint64 t junk) (GetUint64 t) s v"
    by (simp_all add: round_trip_def PutInt64_def GetInt64_def shl_int64_def shr_int64_def
        PutUint64_def GetUint64_def shl_uint64_def shr_uint64_def object_value_bytes
        WriteByteorder_int64_def WriteByteorder_uint64_def ReadByteorder_int64_def
        ReadByteorder_uint64_def HtonUint64_def NtohUint64_def ReverseLong_involution)
qed


text \<open>
  Claim C7. For each of the eight integer types, every value and every byte order: on a
  well-formed stream whose write cursor is at least 8 below \<open>2^32\<close>, writing the value
  and then reading a value of the same type from the position it was written at returns,
  and yields exactly the value written.
\<close>

theorem typed_put_get_round_trip:
  assumes wf: "well_formed s" and fit: "unat (write_idx s) + 8 < 2 ^ 32"
  shows "round_trip (PutInt8 t junk) (GetInt8 t) (SetByteOrder s ord) a8 \<and>
         round_trip (PutUint8 t junk) (GetUint8 t) (SetByteOrder s ord) b8 \<and>
         round_trip (PutInt16 t junk) (GetInt16 t) (SetByteOrder s ord) a16 \<and>
         round_trip (PutUint16 t junk) (GetUint16 t) (SetByteOrder s ord) b16 \<and>
         round_trip (PutInt32 t junk) (GetInt32 t) (SetByteOrder s ord) a32 \<and>
         round_trip (PutUint32 t junk) (GetUint32 t) (SetByteOrder s ord) b32 \<and>
         round_trip (PutInt64 t junk) (GetInt64 t) (SetByteOrder s ord) a64 \<and>
         round_trip (PutUint64 t junk) (GetUint64 t) (SetByteOrder s ord) b64"
proof -
  let ?s = "SetByteOrder s ord"
  from wf have wf': "well_formed ?s"
    by (simp add: well_formed_def SetByteOrder_def split: option.splits)
  from fit have fit': "unat (write_idx ?s) + 8 < 2 ^ 32"
    by (simp add: SetByteOrder_def)
  show ?thesis
    by (intro conjI round_trip_8 [OF wf' fit'] round_trip_16 [OF wf' fit']
        round_trip_32 [OF wf' fit'] round_trip_64 [OF wf' fit'])
qed

theorem typed_put_get_round_trip_witness:
  "well_formed (ByteStream_sized win_le [] 0) \<and>
   unat (write_idx (ByteStream_sized win_le [] 0)) + 8 < 2 ^ 32 \<and>
   round_trip (PutInt16 win_le []) (GetInt16 win_le)
     (SetByteOrder (ByteStream_sized win_le [] 0) BIG_ENDIAN) (- 2) \<and>
   round_trip (PutUint32 win_le []) (GetUint32 win_le)
     (SetByteOrder (ByteStream_sized win_le [] 0) BIG_ENDIAN) 0x01020304 \<and>
   round_trip (PutUint64 win_le []) (GetUint64 win_le)
     (SetByteOrder (ByteStream_sized win_le [] 0) BIG_ENDIAN) 0x0102030405060708"
proof -
  have wf: "well_formed (ByteStream_sized win_le [] 0)"
    by (simp add: well_formed_def ByteStream_sized_def)
  have fit: "unat (write_idx (ByteStream_sized win_le [] 0)) + 8 < 2 ^ 32"
    by (simp add: ByteStream_sized_def)
  from typed_put_get_round_trip [OF wf fit, of win_le "[]" BIG_ENDIAN _ _ "- 2" _ _ "0x01020304" _ "0x0102030405060708"]
  show ?thesis using wf fit by blast
qed

text \<open>
  On a little-endian Windows build a stream in network order holds the bytes of
  \<open>0x01020304\<close> highest first, and a stream in host order lowest first.
\<close>

lemma network_order_on_the_wire:
  "(case PutUint32 win_le [] (SetByteOrder (ByteStream_sized win_le [] 0) BIG_ENDIAN) 0x01020304 of
      Inl e \<Rightarrow> False | Inr s \<Rightarrow> written s = [0x01, 0x02, 0x03, 0x04]) \<and>
   (case PutUint32 win_le [] (ByteStream_sized win_le [] 0) 0x01020304 of
      Inl e \<Rightarrow> False | Inr s \<Rightarrow> written s = [0x04, 0x03, 0x02, 0x01])"
  by code_simp

text \<open>
  The representation invariant holds of every new stream (a wrapped array having the
  size the caller states) and is kept by the operations that change a stream.
\<close>

lemma well_formed_new:
  "well_formed (ByteStream_sized t junk n)"
  "length d = unat n \<Longrightarrow> well_formed (ByteStream_wrap t (Some d) n)"
  by (simp_all add: well_formed_def ByteStream_sized_def ByteStream_wrap_def)

lemma well_formed_Add:
  assumes "well_formed s" and "sz \<noteq> 0" and "length bytes = unat sz"
    and "unat (write_idx s) + unat sz < 2 ^ 32" and "Add junk s (Some bytes) sz = Inr s'"
  shows "well_formed s'"
  using Add_ok [OF assms(1-4), of junk] assms(5) by (auto simp: well_formed_def)

lemma well_formed_cursors:
  assumes "well_formed s"
  shows "well_formed (SetWritePtr s idx)"
    and "SetReadPtr s idx = Inr s' \<Longrightarrow> well_formed s'"
    and "Get s n = Inr (bs, s'') \<Longrightarrow> well_formed s''"
  using assms
  by (auto simp: well_formed_def SetWritePtr_def SetReadPtr_def Get_def
      split: option.splits if_splits)

section \<open>Byte stream: reading a string\<close>

lemma object_bytes_1 [simp]:
  "object_bytes t 1 (c :: u8) = [c]" "object_bytes t (Suc 0) (c :: u8) = [c]"
  by (simp_all add: object_bytes_def split: BYTEORDER.split)

lemma object_value_1 [simp]: "(object_value t [c] :: u8) = c"
  by (simp add: object_value_def split: BYTEORDER.split)

lemma PutUint8_append:
  assumes wf: "well_formed bs" and nn: "data bs = None \<longrightarrow> write_idx bs = 0"
    and fit: "unat (write_idx bs) + 1 < 2 ^ 32"
  shows "\<exists>bs1. PutUint8 t junk bs c = Inr bs1 \<and> well_formed bs1 \<and> data bs1 \<noteq> None \<and>
           write_idx bs1 = write_idx bs + 1 \<and> written bs1 = written bs @ [c]"
proof -
  from fit have fit': "unat (write_idx bs) + unat (1 :: u32) < 2 ^ 32" by simp
  from Add_ok [OF wf _ _ fit', of "[c]" junk] obtain s1 d1 where
    a: "Add junk bs (Some [c]) 1 = Inr s1" and d1: "data s1 = Some d1"
    and l1: "length d1 = unat (stream_size s1)" and w1: "write_idx s1 \<le> stream_size s1"
    and wr: "write_idx s1 = write_idx bs + 1"
    and tk: "take (unat (1 :: u32)) (drop (unat (write_idx bs)) d1) = [c]"
    and pre: "\<forall>d. data bs = Some d \<longrightarrow> take (unat (write_idx bs)) d1 = take (unat (write_idx bs)) d"
    by auto
  from fit have sum: "unat (write_idx bs + 1) = unat (write_idx bs) + 1"
    by (simp add: unat_add_lem [THEN iffD1])
  have "take (unat (write_idx bs) + 1) d1 = take (unat (write_idx bs)) d1 @ take 1 (drop (unat (write_idx bs)) d1)"
    by (rule take_add)
  with tk have "take (unat (write_idx bs) + 1) d1 = take (unat (write_idx bs)) d1 @ [c]" by simp
  moreover have "take (unat (write_idx bs)) d1 = written bs"
  proof (cases "data bs")
    case None
    with nn show ?thesis by (simp add: written_def)
  next
    case (Some d)
    with pre show ?thesis by (simp add: written_def)
  qed
  ultimately have "written s1 = written bs @ [c]"
    using d1 wr sum by (simp add: written_def)
  moreover from d1 l1 w1 have "well_formed s1" by (simp add: well_formed_def)
  ultimately show ?thesis using a d1 wr
    by (simp add: PutUint8_def shl_uint8_def)
qed

lemma GetUint8_next:
  assumes d: "data s = Some d" and lt: "read_idx s < write_idx s"
    and ext: "unat (write_idx s) \<le> length d"
  shows "GetUint8 t s = Inr (d ! unat (read_idx s), s\<lparr>read_idx := read_idx s + 1\<rparr>)"
proof -
  from lt have lt': "unat (read_idx s) < unat (write_idx s)" by (simp add: word_less_nat_alt)
  then have fit: "unat (read_idx s) + unat (1 :: u32) \<le> unat (write_idx s)" by simp
  from lt' ext have "take 1 (drop (unat (read_idx s)) d) = [d ! unat (read_idx s)]"
    by (simp add: take_Suc_conv_app_nth [of 0, simplified] hd_drop_conv_nth take_Suc)
  with Get_ok [OF d fit ext] show ?thesis
    by (simp add: GetUint8_def shr_uint8_def)
qed


lemma unread_step:
  assumes d: "data s = Some d" and lt: "read_idx s < write_idx s"
    and ext: "unat (write_idx s) \<le> length d"
  shows "unread s = d ! unat (read_idx s) # unread (s\<lparr>read_idx := read_idx s + 1\<rparr>)"
proof -
  from lt have lt': "unat (read_idx s) < unat (write_idx s)" by (simp add: word_less_nat_alt)
  have "unat (write_idx s) < 2 ^ 32" using unsigned_less [of "write_idx s"] by simp
  with lt' have sum: "unat (read_idx s + 1) = unat (read_idx s) + 1"
    by (simp add: unat_add_lem [THEN iffD1])
  from lt' obtain m where m: "unat (write_idx s) - unat (read_idx s) = Suc m"
    and m': "unat (write_idx s) - (unat (read_idx s) + 1) = m"
    by (cases "unat (write_idx s) - unat (read_idx s)") simp_all
  from lt' ext have "drop (unat (read_idx s)) d = d ! unat (read_idx s) # drop (Suc (unat (read_idx s))) d"
    by (simp add: Cons_nth_drop_Suc)
  with d m m' sum show ?thesis by (simp add: unread_def)
qed

lemma GetString_loop_no_zero:
  assumes "k = unat (write_idx s) - unat (read_idx s)"
    and "well_formed s" and "readable s" and "0 \<notin> set (unread s)"
    and "well_formed bs" and "data bs = None \<longrightarrow> write_idx bs = 0"
    and "unat (write_idx bs) + k + 1 < 2 ^ 32"
  shows "\<exists>bs'. GetString_loop t junk s bs = Inr (s\<lparr>read_idx := write_idx s\<rparr>, bs') \<and>
           data bs' \<noteq> None \<and> written bs' = written bs @ unread s @ [0]"
  using assms
proof (induction k arbitrary: s bs)
  case 0
  from \<open>readable s\<close> have "unat (read_idx s) \<le> unat (write_idx s)"
    by (simp add: readable_def word_le_nat_alt)
  with 0 have eq: "read_idx s = write_idx s"
    by (simp add: word_unat_eq_iff)
  then have u: "unread s = []" by (simp add: unread_def split: option.splits)
  from 0 have "unat (write_idx bs) + 1 < 2 ^ 32" by simp
  from PutUint8_append [OF \<open>well_formed bs\<close> \<open>data bs = None \<longrightarrow> write_idx bs = 0\<close> this, of t junk 0]
  obtain bs1 where "PutUint8 t junk bs 0 = Inr bs1" "data bs1 \<noteq> None"
    "written bs1 = written bs @ [0]" by blast
  with eq u show ?case
    by (subst GetString_loop.simps) (simp add: Eof_def GetReadPtr_def GetWritePtr_def)
next
  case (Suc k)
  from Suc.prems have lt': "unat (read_idx s) < unat (write_idx s)" by simp
  then have lt: "read_idx s < write_idx s" by (simp add: word_less_nat_alt)
  then have ne: "\<not> Eof s" by (auto simp: Eof_def GetReadPtr_def GetWritePtr_def)
  from lt' \<open>readable s\<close> obtain d where d: "data s = Some d"
    by (cases "data s") (auto simp: readable_def)
  with \<open>well_formed s\<close> have ext: "unat (write_idx s) \<le> length d"
    by (simp add: well_formed_def word_le_nat_alt)
  let ?c = "d ! unat (read_idx s)"
  let ?s' = "s\<lparr>read_idx := read_idx s + 1\<rparr>"
  have g: "GetUint8 t s = Inr (?c, ?s')" using d lt ext by (rule GetUint8_next)
  have us: "unread s = ?c # unread ?s'" using d lt ext by (rule unread_step)
  with \<open>0 \<notin> set (unread s)\<close> have c0: "?c \<noteq> 0" and nz': "0 \<notin> set (unread ?s')" by auto
  have "unat (write_idx s) < 2 ^ 32" using unsigned_less [of "write_idx s"] by simp
  with lt' have sum: "unat (read_idx s + 1) = unat (read_idx s) + 1"
    by (simp add: unat_add_lem [THEN iffD1])
  from Suc.prems have fit: "unat (write_idx bs) + 1 < 2 ^ 32" by simp
  from PutUint8_append [OF \<open>well_formed bs\<close> \<open>data bs = None \<longrightarrow> write_idx bs = 0\<close> fit, of t junk ?c]
  obtain bs1 where p: "PutUint8 t junk bs ?c = Inr bs1" and wf1: "well_formed bs1"
    and d1: "data bs1 \<noteq> None" and w1: "write_idx bs1 = write_idx bs + 1"
    and wr1: "written bs1 = written bs @ [?c]" by blast
  from fit w1 have sum1: "unat (write_idx bs1) = unat (write_idx bs) + 1"
    by (simp add: unat_add_lem [THEN iffD1])
  have k: "k = unat (write_idx ?s') - unat (read_idx ?s')"
    using Suc.prems(1) sum by simp
  have wf': "well_formed ?s'" using \<open>well_formed s\<close>
    by (simp add: well_formed_def split: option.splits)
  have rd': "readable ?s'" using \<open>readable s\<close> sum lt' d
    by (simp add: readable_def word_le_nat_alt)
  have fit1: "unat (write_idx bs1) + k + 1 < 2 ^ 32" using Suc.prems sum1 by simp
  from d1 have nn1: "data bs1 = None \<longrightarrow> write_idx bs1 = 0" by blast
  from Suc.IH [OF k wf' rd' nz' wf1 nn1 fit1]
  obtain bs' where l: "GetString_loop t junk ?s' bs1 = Inr (?s'\<lparr>read_idx := write_idx ?s'\<rparr>, bs')"
    and db: "data bs' \<noteq> None" and wb: "written bs' = written bs1 @ unread ?s' @ [0]"
    by blast
  have "GetString_loop t junk s bs = GetString_loop t junk ?s' bs1"
    using ne g p c0 by (subst GetString_loop.simps) simp
  with l db wb wr1 us show ?case by simp
qed

lemma c_string_written:
  assumes "data bs = Some b" and "written bs = str @ [0]" and "0 \<notin> set str"
  shows "c_string (GetBuffer bs) = Inr str"
proof -
  from assms have tk: "take (unat (write_idx bs)) b = str @ [0]" by (simp add: written_def)
  have "b = take (unat (write_idx bs)) b @ drop (unat (write_idx bs)) b" by simp
  with tk have b: "b = str @ 0 # drop (unat (write_idx bs)) b" by simp
  then have "0 \<in> set b" by (metis in_set_conv_decomp)
  moreover from b \<open>0 \<notin> set str\<close> have "takeWhile (\<lambda>c. c \<noteq> 0) b = str"
    by (metis (mono_tags, lifting) takeWhile_tail takeWhile_eq_all_conv takeWhile.simps(2) append_Nil2 takeWhile_append2)
  ultimately show ?thesis using assms(1) by (simp add: c_string_def GetBuffer_def)
qed

text \<open>
  Claim C10, as amended. On a stream that satisfies the representation invariant, whose
  read cursor does not exceed its write cursor (and which has a buffer unless the two
  are equal), and whose unread bytes contain no zero byte and number fewer than
  \<open>2^32 - 1\<close>, \<open>GetString\<close> raises nothing: it returns exactly the unread bytes and
  leaves the read cursor equal to the write cursor.
\<close>

theorem GetString_no_zero:
  assumes wf: "well_formed s" and rd: "readable s"
    and nz: "0 \<notin> set (unread s)"
    and fit: "unat (write_idx s) - unat (read_idx s) + 1 < 2 ^ 32"
  shows "GetString t junk s = Inr (unread s, s\<lparr>read_idx := write_idx s\<rparr>)"
proof -
  let ?bs = "ByteStream_sized t junk 0"
  have wfb: "well_formed ?bs" and nb: "data ?bs = None \<longrightarrow> write_idx ?bs = 0"
    and wb: "written ?bs = []"
    by (simp_all add: ByteStream_sized_def well_formed_def written_def)
  have fb: "unat (write_idx ?bs) + (unat (write_idx s) - unat (read_idx s)) + 1 < 2 ^ 32"
    using fit by (simp add: ByteStream_sized_def)
  from GetString_loop_no_zero [OF refl wf rd nz wfb nb fb, of t junk]
  obtain bs' b where l: "GetString_loop t junk s ?bs = Inr (s\<lparr>read_idx := write_idx s\<rparr>, bs')"
    and db: "data bs' = Some b" and w: "written bs' = unread s @ [0]"
    using wb by auto
  from c_string_written [OF db w nz] l show ?thesis
    by (simp add: GetString_def)
qed

theorem GetString_no_zero_witness:
  "well_formed (ByteStream_wrap win_le (Some [65, 66, 67]) 3) \<and>
   readable (ByteStream_wrap win_le (Some [65, 66, 67]) 3) \<and>
   0 \<notin> set (unread (ByteStream_wrap win_le (Some [65, 66, 67]) 3)) \<and>
   GetString win_le [] (ByteStream_wrap win_le (Some [65, 66, 67]) 3) =
     Inr ([65, 66, 67], (ByteStream_wrap win_le (Some [65, 66, 67]) 3)\<lparr>read_idx := 3\<rparr>)"
proof -
  let ?s = "ByteStream_wrap win_le (Some [65, 66, 67]) 3"
  have wf: "well_formed ?s" and rd: "readable ?s" and u: "unread ?s = [65, 66, 67]"
    and fit: "unat (write_idx ?s) - unat (read_idx ?s) + 1 < 2 ^ 32"
    by (simp_all add: well_formed_def readable_def unread_def ByteStream_wrap_def)
  from u have nz: "0 \<notin> set (unread ?s)" by simp
  from GetString_no_zero [OF wf rd nz fit, of win_le "[]"] u
  have "GetString win_le [] ?s = Inr ([65, 66, 67], ?s\<lparr>read_idx := 3\<rparr>)"
    by (simp add: ByteStream_wrap_def)
  with wf rd nz show ?thesis by blast
qed

text \<open>
  Claim C10 as stated fails. A stream wraps a caller's three bytes, none of them zero;
  the read cursor is moved to 3 and the write cursor then back to 1, which
  \<open>SetWritePtr\<close> allows. No byte lies between the read cursor and the write cursor, so
  no unread byte is zero, and the stream is not at its end as \<open>Eof\<close> tests it:
  \<open>GetString\<close> reads a byte and \<open>Get\<close> throws \<open>access_violation_exception\<close>.
\<close>

theorem GetString_past_write_cursor_counterexample:
  "SetReadPtr (ByteStream_wrap win_le (Some [65, 66, 67]) 3) 3 =
     Inr \<lparr>data = Some [65, 66, 67], read_idx = 3, write_idx = 3,
          stream_size = 3, mallocated = False, byte_order = LITTLE_ENDIAN\<rparr> \<and>
   SetWritePtr \<lparr>data = Some [65, 66, 67], read_idx = 3, write_idx = 3,
                stream_size = 3, mallocated = False, byte_order = LITTLE_ENDIAN\<rparr> 1 =
     \<lparr>data = Some [65, 66, 67], read_idx = 3, write_idx = 1,
      stream_size = 3, mallocated = False, byte_order = LITTLE_ENDIAN\<rparr> \<and>
   well_formed \<lparr>data = Some [65, 66, 67], read_idx = 3, write_idx = 1,
                stream_size = 3, mallocated = False, byte_order = LITTLE_ENDIAN\<rparr> \<and>
   unread \<lparr>data = Some [65, 66, 67], read_idx = 3, write_idx = 1,
           stream_size = 3, mallocated = False, byte_order = LITTLE_ENDIAN\<rparr> = [] \<and>
   GetString win_le [] \<lparr>data = Some [65, 66, 67], read_idx = 3, write_idx = 1,
                         stream_size = 3, mallocated = False, byte_order = LITTLE_ENDIAN\<rparr> =
     Inl (Throw (access_violation_exception ''byte stream overflow'')
            \<lparr>data = Some [65, 66, 67], read_idx = 3, write_idx = 1,
             stream_size = 3, mallocated = False, byte_order = LITTLE_ENDIAN\<rparr>)"
  by code_simp
section \<open>Event: waiting after a signal\<close>

lemma wait_timed_set:
  "st \<Longrightarrow> \<forall>(rc, st') \<in> set rcs. st' \<Longrightarrow> wait_timed st rcs = Some (r, st'') \<Longrightarrow> \<not> r"
  by (induction st rcs rule: wait_timed.induct) (auto split: if_splits)

text \<open>
  While the flag stays set, no poll and no wait with a finite timeout returns true,
  whatever the operating system answers.
\<close>

lemma Wait_finite_never_true:
  assumes "event_state e" and "timeout \<noteq> 0xffffffff"
    and "\<forall>(rc, st') \<in> set (cond_rcs env). st'"
  shows "Wait e env timeout \<noteq> Some (True, e')"
proof
  assume "Wait e env timeout = Some (True, e')"
  then have "Wait_locked e env timeout = Some (True, e')"
    by (auto simp: Wait_def split: if_splits)
  with assms(2) obtain st'' where "wait_timed (event_state e) (cond_rcs env) = Some (True, st'')"
    by (auto simp: Wait_locked_def split: option.splits if_splits)
  with wait_timed_set [OF assms(1) assms(3)] show False by blast
qed

text \<open>The wait without a timeout does return true on a set flag.\<close>

lemma Wait_infinite_true:
  assumes "event_state e" and "\<not> mutex_locked e" and "lock_rc env = 0"
  shows "Wait e env 0xffffffff = Some (True, e)"
proof -
  from assms(1) have "wait_forever (event_state e) (cond_rcs env) = Some (True, True)"
    by (cases "cond_rcs env") auto
  with assms show ?thesis by (simp add: Wait_def Wait_locked_def)
qed

text \<open>
  Claim C6 fails on the code. After \<open>Signal\<close> on a new event, with every system call
  succeeding, \<open>Wait(100)\<close> returns false when the timed wait on the condition times
  out, and the poll \<open>Wait(0)\<close> returns false too: the loop of the timed branch runs
  while the flag is set.
\<close>

theorem Wait_after_Signal_returns_false:
  "Signal Event_new \<lparr>lock_rc = 0, clock_rc = 0, cond_rcs = []\<rparr> =
     Some (Inr \<lparr>event_state = True, mutex_locked = False\<rparr>) \<and>
   Wait \<lparr>event_state = True, mutex_locked = False\<rparr>
     \<lparr>lock_rc = 0, clock_rc = 0, cond_rcs = [(ETIMEDOUT, True)]\<rparr> 100 =
     Some (False, \<lparr>event_state = True, mutex_locked = False\<rparr>) \<and>
   Wait \<lparr>event_state = True, mutex_locked = False\<rparr>
     \<lparr>lock_rc = 0, clock_rc = 0, cond_rcs = [(ETIMEDOUT, True)]\<rparr> 0 =
     Some (False, \<lparr>event_state = True, mutex_locked = False\<rparr>)"
  by (simp add: Signal_def Event_new_def Wait_def Wait_locked_def ETIMEDOUT_def)

section \<open>The context pool\<close>

lemma GetIoContext_pool:
  "length (pool_list (snd (GetIoContext j st))) \<le> length (pool_list st) \<and>
   pool_size (snd (GetIoContext j st)) = pool_size st"
  by (simp add: GetIoContext_def split: list.split)

lemma io_write_pool [simp]:
  "pool_list (io_write st p c) = pool_list st" "pool_size (io_write st p c) = pool_size st"
  by (simp_all add: io_write_def split: io_ptr.split option.split)

lemma emit_pool [simp]:
  "pool_list (emit st evs) = pool_list st" "pool_size (emit st evs) = pool_size st"
  by (simp_all add: emit_def)

lemma PutIoContext_pool:
  assumes "PutIoContext st p = Inr st'" and "length (pool_list st) \<le> unat (pool_size st)"
  shows "length (pool_list st') \<le> unat (pool_size st') \<and> pool_size st' = pool_size st"
  using assms
  by (auto simp: PutIoContext_def bindf_def Let_def split: sum.splits prod.splits if_splits io_ptr.splits)

lemma pool_states_bound:
  "length (pool_list st) \<le> unat (pool_size st) \<Longrightarrow>
   \<forall>st' \<in> set (pool_states st cs).
     length (pool_list st') \<le> unat (pool_size st') \<and> pool_size st' = pool_size st"
proof (induction st cs rule: pool_states.induct)
  case (1 st)
  then show ?case by simp
next
  case (2 st j cs)
  from GetIoContext_pool [of j st] "2.prems"
  have "length (pool_list (snd (GetIoContext j st))) \<le> unat (pool_size (snd (GetIoContext j st)))"
    and "pool_size (snd (GetIoContext j st)) = pool_size st"
    by simp_all
  with 2 show ?case by auto
next
  case (3 st p cs)
  show ?case
  proof (cases "PutIoContext st p")
    case (Inl f)
    with 3 show ?thesis by simp
  next
    case (Inr st1)
    from PutIoContext_pool [OF Inr "3.prems"]
    have "length (pool_list st1) \<le> unat (pool_size st1)" "pool_size st1 = pool_size st" by auto
    with 3 Inr show ?thesis by auto
  qed
qed

text \<open>
  Claim C4. Whatever sequence of \<open>GetIoContext\<close> and \<open>PutIoContext\<close> calls follows
  \<open>Init\<close> with capacity \<open>n\<close>, in every state the pool passes through the free list
  holds at most \<open>n\<close> contexts (and the capacity is still \<open>n\<close>).
\<close>

theorem pool_never_exceeds_capacity:
  fixes cs :: "'p::len SOCKET pool_call list"
  shows "\<forall>st \<in> set (pool_states (iocp_Init n) cs).
           length (pool_list st) \<le> unat n \<and> pool_size st = n"
proof -
  let ?init = "iocp_Init n :: 'p iocp"
  have "length (pool_list ?init) \<le> unat (pool_size ?init)"
    by (simp add: iocp_Init_def)
  from pool_states_bound [OF this, of cs]
  have "\<forall>st \<in> set (pool_states ?init cs).
          length (pool_list st) \<le> unat (pool_size st) \<and> pool_size st = pool_size ?init" .
  moreover have "pool_size ?init = n" by (simp add: iocp_Init_def)
  ultimately show ?thesis by auto
qed

theorem pool_never_exceeds_capacity_witness:
  "length (pool_list (last (pool_states (iocp_Init 1 :: 32 iocp)
      [Pool_get 3, Pool_get 3, Pool_put (Heap_io 0), Pool_put (Heap_io 1)]))) \<le> 1 \<and>
   pool_list (last (pool_states (iocp_Init 1 :: 32 iocp)
      [Pool_get 3, Pool_get 3, Pool_put (Heap_io 0), Pool_put (Heap_io 1)])) = [Heap_io 0]"
proof -
  let ?cs = "[Pool_get 3, Pool_get 3, Pool_put (Heap_io 0), Pool_put (Heap_io 1)]"
  have "last (pool_states (iocp_Init 1 :: 32 iocp) ?cs) \<in> set (pool_states (iocp_Init 1 :: 32 iocp) ?cs)"
    by (rule last_in_set) simp
  with pool_never_exceeds_capacity [of 1 ?cs]
  have "length (pool_list (last (pool_states (iocp_Init 1 :: 32 iocp) ?cs))) \<le> unat (1 :: u32)" by blast
  moreover have "pool_list (last (pool_states (iocp_Init 1 :: 32 iocp) ?cs)) = [Heap_io 0]"
    by code_simp
  ultimately show ?thesis by simp
qed

text \<open>The two operations, as the claim describes them.\<close>

lemma GetIoContext_pops_front:
  "pool_list st = p # rest \<Longrightarrow> GetIoContext j st = (p, st\<lparr>pool_list := rest\<rparr>)"
  by (simp add: GetIoContext_def)

lemma GetIoContext_allocates:
  "pool_list st = [] \<Longrightarrow>
   fst (GetIoContext j st) = Heap_io (next_addr st) \<and>
   io_read (snd (GetIoContext j st)) (Heap_io (next_addr st)) = Inr (IOCP_IoContext_new j) \<and>
   pool_list (snd (GetIoContext j st)) = []"
  by (simp add: GetIoContext_def io_read_def)

lemma PutIoContext_below_capacity:
  assumes "io_heap st a = Some c" and "length (pool_list st) < unat (pool_size st)"
  shows "\<exists>st'. PutIoContext st (Heap_io a) = Inr st' \<and> pool_list st' = pool_list st @ [Heap_io a] \<and>
           io_heap st' a = Some (fst (IoContext_Reset c))"
  using assms
  by (simp add: PutIoContext_def bindf_def io_read_def io_write_def emit_def Let_def
      split: prod.split)

lemma PutIoContext_at_capacity:
  assumes "io_heap st a = Some c" and "unat (pool_size st) \<le> length (pool_list st)"
  shows "\<exists>st'. PutIoContext st (Heap_io a) = Inr st' \<and> pool_list st' = pool_list st \<and>
           io_heap st' a = None"
  using assms
  by (simp add: PutIoContext_def bindf_def io_read_def io_write_def emit_def Let_def
      split: prod.split)

section \<open>Workers, sockets and contexts\<close>








lemma key_store_overruns_wide_pointer:
  fixes key :: "'p::len ULONG_PTR"
  assumes "32 < LENGTH('p)"
  shows "TCP_Run_iteration w env (Completed n key p) (st, l) = Inl Key_store_overrun"
    and "TCP_Run_iteration w env (Failed_io n key q err) (st, l) = Inl Key_store_overrun"
    and "UDP_Run_iteration env (Completed n key p) (st, l) = Inl Key_store_overrun"
    and "UDP_Run_iteration env (Failed_io n key q err) (st, l) = Inl Key_store_overrun"
  using assms
  by (simp_all add: TCP_Run_iteration_def UDP_Run_iteration_def after_dequeue_def store_key_def
      bindf_def)



text \<open>
  The same completion on the trace of a concrete client: socket 5 leaves the active map,
  its socket is shut down and closed, and the callback for key 5 comes last.
\<close>

lemma orderly_close_on_two_sockets:
  "outcome (TCP_Run_iteration client_worker all_fine (Completed 0 5 (Some (Recv_io 0)))
              (two_sockets :: 32 iocp, run_locals_init)) =
     Inr (Continue, [Call_shutdown 5, Call_closesocket 5, Call_closesocket INVALID_SOCKET,
            DisconnectedCallback 5])"
  by code_simp

text \<open>
  The part of claim C1 that holds: after a failed dequeue the worker looks the key up,
  and when the lookup is null the iteration changes nothing and invokes nothing.
\<close>

lemma failed_dequeue_of_closed_socket_discarded:
  fixes st :: "'p::len iocp" and key :: "'p ULONG_PTR"
  assumes "LENGTH('p) \<le> 32" and "GetActiveContext st (ucast key) = None"
  shows "TCP_Run_iteration w env (Failed_io n key p err) (st, l) =
           Inr (Continue, st, \<lparr>bytes_transfered = n, run_sock_id = ucast key\<rparr>)"
    and "UDP_Run_iteration env (Failed_io n key p err) (st, l) =
           Inr (Continue, st, \<lparr>bytes_transfered = n, run_sock_id = ucast key\<rparr>)"
  using assms
  by (simp_all add: TCP_Run_iteration_def UDP_Run_iteration_def after_dequeue_def store_key_def
      bindf_def TCP_HandleError_def UDP_HandleError_def)

text \<open>
  Claim C1 fails on the code: a successful completion is dispatched without a look at
  the handle. Socket 5 is closed and not active; the context of its send is in use
  again. The completion of that send, dequeued now by a TCP worker, dereferences the null
  handle when it carries bytes, and invokes the disconnect callback for key 5 when it
  carries none; dequeued by a UDP worker it dereferences the null handle. This is the
  build with 32-bit pointers; with 64-bit pointers the same completions are not discarded
  either: the store of the key is undefined behaviour.
\<close>

theorem completion_after_close_dispatched:
  "(case (reused_after_close :: fault + 32 iocp) of
      Inl f \<Rightarrow> False
    | Inr st \<Rightarrow>
        GetActiveContext st 5 = None \<and>
        outcome (TCP_Run_iteration client_worker all_fine (Completed 3 5 (Some (Heap_io 2)))
                   (st, run_locals_init)) = Inl Null_dereference \<and>
        outcome (TCP_Run_iteration client_worker all_fine (Completed 0 5 (Some (Heap_io 2)))
                   (st, run_locals_init)) =
          Inr (Continue, [Call_WSASend 5, Call_shutdown 5, Call_closesocket 5,
                 Call_closesocket INVALID_SOCKET, Call_WSASend 9, DisconnectedCallback 5])) \<and>
   (case (reused_after_close_udp :: fault + 32 iocp) of
      Inl f \<Rightarrow> False
    | Inr st \<Rightarrow>
        GetActiveContext st 5 = None \<and>
        outcome (UDP_Run_iteration all_fine (Completed 3 5 (Some (Heap_io 2)))
                   (st, run_locals_init)) = Inl Null_dereference) \<and>
   (case (reused_after_close :: fault + 64 iocp) of
      Inl f \<Rightarrow> False
    | Inr st \<Rightarrow>
        GetActiveContext st 5 = None \<and>
        outcome (TCP_Run_iteration client_worker all_fine (Completed 3 5 (Some (Heap_io 2)))
                   (st, run_locals_init)) = Inl Key_store_overrun \<and>
        outcome (TCP_Run_iteration client_worker all_fine (Completed 0 5 (Some (Heap_io 2)))
                   (st, run_locals_init)) = Inl Key_store_overrun) \<and>
   (case (reused_after_close_udp :: fault + 64 iocp) of
      Inl f \<Rightarrow> False
    | Inr st \<Rightarrow>
        GetActiveContext st 5 = None \<and>
        outcome (UDP_Run_iteration all_fine (Completed 3 5 (Some (Heap_io 2)))
                   (st, run_locals_init)) = Inl Key_store_overrun)"
  by code_simp

lemma two_sockets_active:
  "is_start two_sockets" "GetActiveContext two_sockets 5 = Some 0"
  "pool_list two_sockets = []" "next_addr two_sockets = 2"
  by (simp_all add: two_sockets_def GetActiveContext_def iocp_Init_def)

text \<open>
  Claim C2 fails on the code: \<open>Send\<close> of 4097 bytes on an active socket of a started
  client, server or UDP node neither fails nor truncates; \<open>memcpy\<close> is asked to write
  4097 bytes into the 4096-byte array. So it is on the build with 32-bit pointers and
  on the build with 64-bit pointers.
\<close>

theorem Send_overruns_buffer:
  "TCPClient_Send all_fine (two_sockets :: 32 iocp) 5 (replicate 4097 0x41) 4097 =
     Inl (Buffer_overrun 4097) \<and>
   TCPServer_Send all_fine (two_sockets :: 32 iocp) 5 (replicate 4097 0x41) 4097 =
     Inl (Buffer_overrun 4097) \<and>
   UDPNode_SendTo all_fine (two_sockets :: 32 iocp) 5 (replicate 4097 0x41) 4097 0x0100007f 17012 =
     Inl (Buffer_overrun 4097) \<and>
   UDPNode_SendTo_addr all_fine (two_sockets :: 32 iocp) 5 (replicate 4097 0x41) 4097
       zero_SOCKADDR_IN =
     Inl (Buffer_overrun 4097) \<and>
   TCPClient_Send all_fine (two_sockets :: 64 iocp) 5 (replicate 4097 0x41) 4097 =
     Inl (Buffer_overrun 4097) \<and>
   TCPServer_Send all_fine (two_sockets :: 64 iocp) 5 (replicate 4097 0x41) 4097 =
     Inl (Buffer_overrun 4097) \<and>
   UDPNode_SendTo all_fine (two_sockets :: 64 iocp) 5 (replicate 4097 0x41) 4097 0x0100007f 17012 =
     Inl (Buffer_overrun 4097) \<and>
   UDPNode_SendTo_addr all_fine (two_sockets :: 64 iocp) 5 (replicate 4097 0x41) 4097
       zero_SOCKADDR_IN =
     Inl (Buffer_overrun 4097)"
  by (simp add: TCPClient_Send_def TCPServer_Send_def UDPNode_SendTo_def UDPNode_SendTo_addr_def
      two_sockets_active GetIoContext_def io_read_def bindf_def memcpy_into_buf_def
      size_t_of_int_def IOCP_IoContext_new_def MAX_IO_BUFFER_SIZE_def)

text \<open>The part of claim C5 that holds: what \<open>Reset\<close> does to the other members.\<close>

lemma IoContext_Reset_members:
  "overlapped (fst (IoContext_Reset c)) = zero_OVERLAPPED \<and>
   buf (fst (IoContext_Reset c)) = replicate 4096 0 \<and>
   remote_addr (fst (IoContext_Reset c)) = zero_SOCKADDR_IN \<and>
   wsa_buf (fst (IoContext_Reset c)) = \<lparr>wsabuf_len = 4096, wsabuf_buf = Inline_buf\<rparr> \<and>
   operation (fst (IoContext_Reset c)) = NULL_POSTED"
  by (simp add: IoContext_Reset_def MAX_IO_BUFFER_SIZE_def)

lemma IoContext_Reset_keeps_valid_socket:
  "sock_accept c \<noteq> INVALID_SOCKET \<Longrightarrow>
   sock_accept (fst (IoContext_Reset c)) = sock_accept c \<and> snd (IoContext_Reset c) = []"
  by (auto simp: IoContext_Reset_def)

text \<open>
  Claim C5 fails on the code: a context that carries the valid accepted socket 7 comes
  out of \<open>Reset\<close> with the socket still in the slot, and \<open>closesocket\<close> is not called,
  on the build with 32-bit pointers and on the build with 64-bit pointers.
\<close>

theorem Reset_leaves_accepted_socket_open:
  "sock_accept ((IOCP_IoContext_new INVALID_SOCKET)\<lparr>sock_accept := 7 :: 32 word, operation := ACCEPT_POSTED\<rparr>)
     \<noteq> INVALID_SOCKET \<and>
   sock_accept (fst (IoContext_Reset
     ((IOCP_IoContext_new INVALID_SOCKET)\<lparr>sock_accept := 7 :: 32 word, operation := ACCEPT_POSTED\<rparr>))) = 7 \<and>
   snd (IoContext_Reset
     ((IOCP_IoContext_new INVALID_SOCKET)\<lparr>sock_accept := 7 :: 32 word, operation := ACCEPT_POSTED\<rparr>)) = [] \<and>
   sock_accept ((IOCP_IoContext_new INVALID_SOCKET)\<lparr>sock_accept := 7 :: 64 word, operation := ACCEPT_POSTED\<rparr>)
     \<noteq> INVALID_SOCKET \<and>
   sock_accept (fst (IoContext_Reset
     ((IOCP_IoContext_new INVALID_SOCKET)\<lparr>sock_accept := 7 :: 64 word, operation := ACCEPT_POSTED\<rparr>))) = 7 \<and>
   snd (IoContext_Reset
     ((IOCP_IoContext_new INVALID_SOCKET)\<lparr>sock_accept := 7 :: 64 word, operation := ACCEPT_POSTED\<rparr>)) = []"
  by (simp add: IoContext_Reset_def IOCP_IoContext_new_def INVALID_SOCKET_def)
end
